theory Spec2Isabelle
  imports Complex_Main
begin

section \<open>Data model\<close>

text \<open>
  The node is written in C++ on top of ROS, Eigen and PCL.  Every \<open>double\<close> and
  \<open>float\<close> of the source is modelled as a \<^typ>\<open>real\<close>: comparisons,
  additions and divisions are exact here, rounding is not modelled.  A header stamp is the
  value of \<open>header.stamp.toSec()\<close>, in seconds.
\<close>

type_synonym Vector3d = "real \<times> real \<times> real"

record Quaternd =
  qw :: real
  qx :: real
  qy :: real
  qz :: real

text \<open>\<open>sensor_msgs::Imu\<close>: the fields the node reads.\<close>

record ImuMsg =
  imu_stamp :: real
  angular_velocity :: Vector3d
  linear_acceleration :: Vector3d

text \<open>\<open>nav_msgs::Odometry\<close>: stamp, \<open>pose.pose\<close> and \<open>twist.twist.linear\<close>.\<close>

record OdomMsg =
  odom_stamp :: real
  orientation :: Quaternd
  position :: Vector3d
  twist_linear :: Vector3d

text \<open>
  \<open>PointOuster\<close> is declared in \<open>utility.h\<close>; the node reads and writes the
  coordinates and the fields \<open>intensity\<close>, \<open>t\<close> (nanoseconds since the
  start of the sweep) and \<open>reflectivity\<close>.  The two integer fields are only copied
  and converted to \<open>double\<close>, so they are unbounded integers here.
\<close>

record PointOuster =
  xyz :: Vector3d
  intensity :: real
  pt_t :: int
  reflectivity :: int

text \<open>
  \<open>sensor_msgs::PointCloud2\<close>: the stamp, the sequence number and the points that
  \<open>pcl::fromROSMsg\<close> decodes from the payload.
\<close>

record CloudMsg =
  cloud_stamp :: real
  cloud_seq :: nat
  cloud_points :: "PointOuster list"

subsection \<open>Vectors, quaternions and rigid transforms\<close>

definition vadd :: "Vector3d \<Rightarrow> Vector3d \<Rightarrow> Vector3d" where
  "vadd a b = (case a of (ax, ay, az) \<Rightarrow> case b of (bx, by, bz) \<Rightarrow>
     (ax + bx, ay + by, az + bz))"

definition vscale :: "real \<Rightarrow> Vector3d \<Rightarrow> Vector3d" where
  "vscale s a = (case a of (ax, ay, az) \<Rightarrow> (s * ax, s * ay, s * az))"

definition vcross :: "Vector3d \<Rightarrow> Vector3d \<Rightarrow> Vector3d" where
  "vcross a b = (case a of (ax, ay, az) \<Rightarrow> case b of (bx, by, bz) \<Rightarrow>
     (ay * bz - az * by, az * bx - ax * bz, ax * by - ay * bx))"

text \<open>
  Eigen's \<open>Quaternion * Vector3\<close>: with \<open>u\<close> the vector part,
  \<open>uv = 2 (u \<times> v)\<close> and the result is \<open>v + w uv + u \<times> uv\<close>.
\<close>

definition quat_rotate :: "Quaternd \<Rightarrow> Vector3d \<Rightarrow> Vector3d" where
  "quat_rotate q v =
     (let u = (qx q, qy q, qz q);
          uv = vcross u v;
          uv2 = vadd uv uv
      in vadd (vadd v (vscale (qw q) uv2)) (vcross u uv2))"

text \<open>
  \<open>myTf\<close> (\<open>utility.h\<close>) is a rotation with a translation; built from an
  odometry message it takes the pose of the message.  \<open>tfMat()\<close> applied to a point
  rotates it and adds the translation.
\<close>

record myTf =
  tf_rot :: Quaternd
  tf_pos :: Vector3d

definition myTf_of_odom :: "OdomMsg \<Rightarrow> myTf" where
  "myTf_of_odom odom = \<lparr>tf_rot = orientation odom, tf_pos = position odom\<rparr>"

definition tf_apply :: "myTf \<Rightarrow> Vector3d \<Rightarrow> Vector3d" where
  "tf_apply tf v = vadd (quat_rotate (tf_rot tf) v) (tf_pos tf)"

text \<open>
  \<open>pcl::transformPointCloud\<close> copies every point and replaces its coordinates by
  the transformed ones.
\<close>

definition transformPointCloud :: "PointOuster list \<Rightarrow> myTf \<Rightarrow> PointOuster list" where
  "transformPointCloud cloud tf = map (\<lambda>pnt. pnt\<lparr>xyz := tf_apply tf (xyz pnt)\<rparr>) cloud"

section \<open>Inertial window extraction\<close>

text \<open>
  \<open>ExtractImuData\<close> appends to the three vectors it receives by reference.  The
  loop runs \<open>i\<close> over \<open>0 .. Nend\<close> with \<open>Nend = imuSeq.size() - 2\<close> as an
  \<open>int\<close>; every index it reads is at most \<open>Nend + 1\<close>, the last one of the
  sequence.  Where \<open>tE = tB\<close> the source divides by zero and the
  fraction is infinite or not a number; HOL's division gives \<open>0\<close> there.  The
  processing loop asserts increasing stamps before it calls the extraction.
\<close>

definition lerp3 :: "real \<Rightarrow> Vector3d \<Rightarrow> Vector3d \<Rightarrow> Vector3d" where
  "lerp3 s a b = vadd (vscale (1 - s) a) (vscale s b)"

type_synonym imu_out = "real list \<times> Vector3d list \<times> Vector3d list"

definition ExtractImuData_body ::
  "real \<Rightarrow> real \<Rightarrow> ImuMsg list \<Rightarrow> int \<Rightarrow> int \<Rightarrow> imu_out \<Rightarrow> imu_out" where
  "ExtractImuData_body tstart tend imuSeq Nend i out =
     (case out of (ts, gyro, acce) \<Rightarrow>
        if i = 0 then
          (let gyro_tB = angular_velocity (imuSeq ! nat i);
               gyro_tE = angular_velocity (imuSeq ! nat (i + 1));
               acce_tB = linear_acceleration (imuSeq ! nat i);
               acce_tE = linear_acceleration (imuSeq ! nat (i + 1));
               tB = imu_stamp (imuSeq ! nat i);
               tE = imu_stamp (imuSeq ! nat (i + 1));
               s = (tstart - tB) / (tE - tB)
           in (ts @ [tstart], gyro @ [lerp3 s gyro_tB gyro_tE], acce @ [lerp3 s acce_tB acce_tE]))
        else if i = Nend then
          (let gyro_tB = angular_velocity (imuSeq ! nat i);
               gyro_tE = angular_velocity (imuSeq ! nat (i + 1));
               acce_tB = linear_acceleration (imuSeq ! nat i);
               acce_tE = linear_acceleration (imuSeq ! nat (i + 1));
               tB = imu_stamp (imuSeq ! nat i);
               tE = imu_stamp (imuSeq ! nat (i + 1));
               s = (tend - tB) / (tE - tB)
           in (ts @ [tend], gyro @ [lerp3 s gyro_tB gyro_tE], acce @ [lerp3 s acce_tB acce_tE]))
        else
          (ts @ [imu_stamp (imuSeq ! nat i)],
           gyro @ [angular_velocity (imuSeq ! nat i)],
           acce @ [linear_acceleration (imuSeq ! nat i)]))"

definition ExtractImuData ::
  "imu_out \<Rightarrow> real \<Rightarrow> real \<Rightarrow> ImuMsg list \<Rightarrow> imu_out" where
  "ExtractImuData out tstart tend imuSeq =
     (let Nend = int (length imuSeq) - 2
      in fold (ExtractImuData_body tstart tend imuSeq Nend) [0..Nend] out)"

section \<open>Node state, console and publishers\<close>

text \<open>
  The global buffers of the node, the two function-local \<open>static\<close> counters, and a
  trace of what the node prints and publishes, in order.  The mutexes are not modelled:
  every callback and every loop iteration is one atomic step.
\<close>

datatype event =
    ROS_WARN string
  | ROS_WARN_THROTTLE string
  | ROS_INFO_THROTTLE string
  | Print_count int nat
  | Print_imu_prop int real Quaternd Vector3d
  | publishCloud string "PointOuster list" real string

datatype error = AssertionFailed | UndefinedBehaviour

record node_state =
  imu_buf :: "ImuMsg list"
  oc_buf :: "(OdomMsg \<times> CloudMsg) list"
  odom_buf :: "OdomMsg list"
  cloud_hold :: "CloudMsg option"
  skip :: int
  cloudCount :: int
  trace :: "event list"

definition say :: "event \<Rightarrow> node_state \<Rightarrow> node_state" where
  "say e s = s\<lparr>trace := trace s @ [e]\<rparr>"

text \<open>The state when \<open>main\<close> starts spinning: empty buffers, \<open>skip = 10\<close>, \<open>cloudCount = -1\<close>.\<close>

definition initial_state :: node_state where
  "initial_state = \<lparr>imu_buf = [], oc_buf = [], odom_buf = [], cloud_hold = None,
     skip = 10, cloudCount = - 1, trace = []\<rparr>"

text \<open>
  The extrinsic transform set in \<open>main\<close>: the rotation matrix \<open>diag(-1, -1, 1)\<close> is
  the quaternion \<open>(w, x, y, z) = (0, 0, 0, 1)\<close>.
\<close>

definition tf_Bimu_Blidar :: myTf where
  "tf_Bimu_Blidar = \<lparr>tf_rot = \<lparr>qw = 0, qx = 0, qy = 0, qz = 1\<rparr>,
     tf_pos = (- 0.006253, 0.011775, 0.028535)\<rparr>"

section \<open>Callbacks and pairing\<close>

definition imuCallback :: "ImuMsg \<Rightarrow> node_state \<Rightarrow> node_state" where
  "imuCallback imuMsg s = s\<lparr>imu_buf := imu_buf s @ [imuMsg]\<rparr>"

definition odomCloudCallback :: "OdomMsg \<Rightarrow> CloudMsg \<Rightarrow> node_state \<Rightarrow> error + node_state" where
  "odomCloudCallback odomMsg cloudMsg s =
     (if 0 < skip s then Inr (s\<lparr>skip := skip s - 1\<rparr>)
      else if \<not> odom_stamp odomMsg \<le> cloud_stamp cloudMsg then Inl AssertionFailed
      else Inr (s\<lparr>oc_buf := oc_buf s @ [(odomMsg, cloudMsg)]\<rparr>))"

text \<open>The pruning loop of \<open>matchOdomCloud\<close>: pop the front while the second pose is at or before \<open>t\<close>.\<close>

fun matchOdomCloud_prune :: "real \<Rightarrow> OdomMsg list \<Rightarrow> OdomMsg list" where
  "matchOdomCloud_prune t (p0 # p1 # rest) =
     (if odom_stamp p1 \<le> t then matchOdomCloud_prune t (p1 # rest) else p0 # p1 # rest)"
| "matchOdomCloud_prune t buf = buf"

text \<open>The condition of the \<open>if\<close> that hands a pair over.\<close>

definition odom_pair_found :: "real \<Rightarrow> OdomMsg list \<Rightarrow> bool" where
  "odom_pair_found t buf \<longleftrightarrow>
     2 \<le> length buf \<and> odom_stamp (buf ! 0) \<le> t \<and> t \<le> odom_stamp (buf ! 1)"

text \<open>
  \<open>matchOdomCloud\<close> reads the stamp of \<open>cloud_hold\<close> first; both callers call it with a
  sweep staged, and on a null pointer the read is undefined behaviour.
\<close>

definition matchOdomCloud :: "node_state \<Rightarrow> error + node_state" where
  "matchOdomCloud s =
     (case cloud_hold s of
        None \<Rightarrow> Inl UndefinedBehaviour
      | Some held \<Rightarrow>
          (let t = cloud_stamp held;
               s1 = s\<lparr>odom_buf := matchOdomCloud_prune t (odom_buf s)\<rparr>
           in if odom_pair_found t (odom_buf s1) then
                (case odomCloudCallback (hd (odom_buf s1)) held s1 of
                   Inl e \<Rightarrow> Inl e
                 | Inr s2 \<Rightarrow> Inr (s2\<lparr>cloud_hold := None\<rparr>))
              else Inr s1))"

definition odomCallback :: "OdomMsg \<Rightarrow> node_state \<Rightarrow> error + node_state" where
  "odomCallback msg s =
     (let s1 = s\<lparr>odom_buf := odom_buf s @ [msg]\<rparr>
      in if cloud_hold s1 \<noteq> None then matchOdomCloud s1 else Inr s1)"


section \<open>Readiness gate\<close>

text \<open>\<open>hasData\<close> returns its verdict and the state it leaves (it may pop a stale pair).\<close>

definition hasData :: "node_state \<Rightarrow> bool \<times> node_state" where
  "hasData s =
     (if oc_buf s = [] then
        (False, say (ROS_WARN_THROTTLE ''hasData: Odom/Cloud buffer empty'') s)
      else if imu_buf s = [] then
        (False, say (ROS_WARN_THROTTLE ''hasData: IMU buffer empty'') s)
      else if odom_stamp (fst (hd (oc_buf s))) < imu_stamp (hd (imu_buf s)) then
        (False, say (ROS_WARN ''Deleting stale odom/cloud pair'') (s\<lparr>oc_buf := tl (oc_buf s)\<rparr>))
      else if cloud_stamp (snd (hd (oc_buf s))) + 0.125 > imu_stamp (last (imu_buf s)) then
        (False, say (ROS_WARN_THROTTLE
           ''hasData: IMU buffer doesn't propagate far enough to cover entire point cloud'') s)
      else (True, s))"

section \<open>Inertial propagation\<close>

text \<open>The three \<open>static\<close> constants of \<open>PropagateIMU\<close>.\<close>

definition grav :: Vector3d where "grav = (9.82, 0, 0)"
definition bg :: Vector3d where "bg = (- 0.022, - 0.033, 0.004)"
definition ba :: Vector3d where "ba = (0.0, 0, 0.1)"

text \<open>
  The variables the propagation loop carries (\<open>to\<close>, \<open>gyro\<close>, \<open>acco\<close>, \<open>Qo\<close>,
  \<open>Po\<close>, \<open>Vo\<close>) and the three vectors it appends to.  The parameters \<open>gyro_\<close> and
  \<open>acce_\<close> of the source are \<open>gyro_in\<close> and \<open>acce_in\<close> here.
\<close>

record prop_state =
  cur_to :: real
  cur_gyro :: Vector3d
  cur_acco :: Vector3d
  Qo :: Quaternd
  Po :: Vector3d
  Vo :: Vector3d
  q_vec :: "Quaternd list"
  p_vec :: "Vector3d list"
  v_vec :: "Vector3d list"

definition PropagateIMU_body ::
  "real list \<Rightarrow> Vector3d list \<Rightarrow> Vector3d list \<Rightarrow> int \<Rightarrow> prop_state \<Rightarrow> prop_state" where
  "PropagateIMU_body ts gyro_in acce_in i st =
     (let tn = ts ! nat i; gyrn = gyro_in ! nat i; accn = acce_in ! nat i;
          Qn = Qo st;
          Vn = Vo st;
          Pn = Po st;
          q' = q_vec st @ [Qn]; p' = p_vec st @ [Pn]; v' = v_vec st @ [Vn]
      in \<lparr>cur_to = tn, cur_gyro = gyrn, cur_acco = accn, Qo = last q', Po = last p', Vo = last v',
          q_vec = q', p_vec = p', v_vec = v'\<rparr>)"

text \<open>
  \<open>PropagateIMU\<close> reads \<open>ts.front()\<close> and indexes the rate and force vectors by the
  indices of \<open>ts\<close>: on an empty \<open>ts\<close> or shorter vectors that is undefined behaviour.
\<close>

definition PropagateIMU ::
  "OdomMsg \<Rightarrow> real list \<Rightarrow> Vector3d list \<Rightarrow> Vector3d list \<Rightarrow>
   Quaternd list \<times> Vector3d list \<times> Vector3d list \<Rightarrow>
   error + Quaternd list \<times> Vector3d list \<times> Vector3d list" where
  "PropagateIMU odom ts gyro_in acce_in out =
     (case out of (q, p, v) \<Rightarrow>
        if ts = [] \<or> length gyro_in < length ts \<or> length acce_in < length ts
        then Inl UndefinedBehaviour
        else
          (let q1 = q @ [orientation odom];
               p1 = p @ [position odom];
               v1 = v @ [quat_rotate (last q1) (twist_linear odom)];
               st0 = \<lparr>cur_to = hd ts, cur_gyro = hd gyro_in, cur_acco = hd acce_in,
                      Qo = last q1, Po = last p1, Vo = last v1,
                      q_vec = q1, p_vec = p1, v_vec = v1\<rparr>;
               st = fold (PropagateIMU_body ts gyro_in acce_in) [1..int (length ts) - 1] st0
           in Inr (q_vec st, p_vec st, v_vec st)))"

section \<open>Per-point deskewing\<close>

text \<open>A default-constructed point, as \<open>resize\<close> creates them.\<close>

definition PointOuster_default :: PointOuster where
  "PointOuster_default = \<lparr>xyz = (0, 0, 0), intensity = 0, pt_t = 0, reflectivity = 0\<rparr>"

text \<open>
  One iteration of the loop over the points.  The bracket index is the constant \<open>-1\<close>
  and the branch \<open>j >= 0\<close> has an empty body, so the output point keeps the
  coordinates of the sweep in the world frame of the start pose.  The iterations write
  disjoint slots, so the parallel loop is modelled as a sequential one.
\<close>

definition Deskew_body ::
  "PointOuster list \<Rightarrow> PointOuster list \<Rightarrow> real \<Rightarrow> int \<Rightarrow> PointOuster list \<Rightarrow> PointOuster list" where
  "Deskew_body cloudSkewed cloudSkewedInWorld tstart i cloudDeskewedInWorld =
     (let pi = cloudSkewed ! nat i;
          po = cloudSkewedInWorld ! nat i;
          ti = tstart + real_of_int (pt_t pi) / 1000000000;
          j = (- 1 :: int);
          po = (if 0 \<le> j then po else po);
          po = po\<lparr>intensity := intensity pi, pt_t := pt_t pi, reflectivity := reflectivity pi\<rparr>
      in cloudDeskewedInWorld[nat i := po])"

definition Deskew_points :: "PointOuster list \<Rightarrow> OdomMsg \<Rightarrow> PointOuster list" where
  "Deskew_points cloudSkewed odom_W_Bstart =
     (let tstart = odom_stamp odom_W_Bstart;
          cloudSkewedInWorld = transformPointCloud cloudSkewed (myTf_of_odom odom_W_Bstart);
          pointsTotal = int (length cloudSkewed)
      in fold (Deskew_body cloudSkewed cloudSkewedInWorld tstart) [0..pointsTotal - 1]
           (replicate (nat pointsTotal) PointOuster_default))"

text \<open>
  \<open>DeskewByImuPropagation\<close>: the early return on a short sequence, the read of the last
  point (undefined on an empty cloud), the two assertions, and the publication.
\<close>

definition DeskewByImuPropagation ::
  "PointOuster list \<Rightarrow> OdomMsg \<Rightarrow> real list \<Rightarrow> Quaternd list \<Rightarrow> Vector3d list \<Rightarrow>
   node_state \<Rightarrow> error + node_state" where
  "DeskewByImuPropagation cloudSkewed odom_W_Bstart ts q_W_Bs p_W_Bs s =
     (if length ts < 8 then Inr (say (ROS_WARN ''Short/empty IMU sequence, ignoring'') s)
      else if cloudSkewed = [] then Inl UndefinedBehaviour
      else
        (let tstart = odom_stamp odom_W_Bstart;
             tend = tstart + real_of_int (pt_t (last cloudSkewed)) * (1 / 1000000000)
         in if \<not> ts ! 0 \<le> tstart then Inl AssertionFailed
            else if \<not> tend \<le> ts ! (length ts - 1) then Inl AssertionFailed
            else Inr (say (publishCloud ''imuPropDeskewedCloudPub''
                        (Deskew_points cloudSkewed odom_W_Bstart)
                        (odom_stamp odom_W_Bstart) ''world_shifted'') s)))"

section \<open>Processing loop\<close>

text \<open>The pruning loop and the gathering loop over the inertial buffer.\<close>

fun processData_prune :: "real \<Rightarrow> ImuMsg list \<Rightarrow> ImuMsg list" where
  "processData_prune start_time (m0 # m1 # rest) =
     (if imu_stamp m1 \<le> start_time then processData_prune start_time (m1 # rest)
      else m0 # m1 # rest)"
| "processData_prune start_time buf = buf"

fun processData_gather :: "real \<Rightarrow> ImuMsg list \<Rightarrow> ImuMsg list" where
  "processData_gather end_time [] = []"
| "processData_gather end_time (sample # rest) =
     sample # (if end_time < imu_stamp sample then [] else processData_gather end_time rest)"

text \<open>The ordering assertions on the gathered sequence.\<close>

fun stamps_increasing :: "ImuMsg list \<Rightarrow> bool" where
  "stamps_increasing (m0 # m1 # rest) \<longleftrightarrow> imu_stamp m0 < imu_stamp m1 \<and> stamps_increasing (m1 # rest)"
| "stamps_increasing buf \<longleftrightarrow> True"

text \<open>The sweep in the body frame, and its end time as \<open>processData\<close> computes it.\<close>

definition cloud_in_body :: "CloudMsg \<Rightarrow> PointOuster list" where
  "cloud_in_body cloudMsg = transformPointCloud (cloud_points cloudMsg) tf_Bimu_Blidar"

definition sweep_end_time :: "CloudMsg \<Rightarrow> real" where
  "sweep_end_time cloudMsg =
     cloud_stamp cloudMsg + real_of_int (pt_t (last (cloud_in_body cloudMsg))) / 1000000000"

text \<open>
  One iteration of the \<open>while\<close> loop of \<open>processData\<close>.  A result \<open>Inr\<close> is the state
  at the next iteration (after a \<open>continue\<close> or at the end of the body); \<open>Inl\<close> is an
  abort.  The two console reports are traced with the values they print first.
\<close>

definition processData_iteration :: "node_state \<Rightarrow> error + node_state" where
  "processData_iteration s0 =
     (case hasData s0 of
        (False, s) \<Rightarrow> Inr (say (ROS_INFO_THROTTLE ''Waiting for data...'') s)
      | (True, s) \<Rightarrow>
          (case oc_buf s of
             [] \<Rightarrow> Inl UndefinedBehaviour
           | (odom, cloudMsg) # oc_rest \<Rightarrow>
               (let s = s\<lparr>oc_buf := oc_rest\<rparr>;
                    cloud = cloud_in_body cloudMsg
                in if cloud = [] then Inl UndefinedBehaviour
                   else
                     (let start_time = odom_stamp odom;
                          end_time = sweep_end_time cloudMsg;
                          s = s\<lparr>imu_buf := processData_prune start_time (imu_buf s)\<rparr>;
                          imuSeq = processData_gather end_time (imu_buf s)
                      in if length imuSeq < 2 \<or> imu_stamp (last imuSeq) < start_time then
                           Inr (say (ROS_WARN_THROTTLE
                                  ''Pointcloud timestamp outside of IMU buffer window'') s)
                         else if \<not> stamps_increasing imuSeq then Inl AssertionFailed
                         else
                           (let s = s\<lparr>cloudCount := cloudCount s + 1\<rparr>;
                                s = say (Print_count (cloudCount s) (cloud_seq cloudMsg)) s;
                                distortedCloudInW = transformPointCloud cloud (myTf_of_odom odom);
                                s = say (publishCloud ''distortedCloudPub'' distortedCloudInW
                                           start_time ''world'') s
                            in case ExtractImuData ([], [], []) start_time end_time imuSeq of
                                 (ts, gyro, acce) \<Rightarrow>
                                   (case PropagateIMU odom ts gyro acce ([], [], []) of
                                      Inl e \<Rightarrow> Inl e
                                    | Inr (q_W_Bs, p_W_Bs, v_W_Bs) \<Rightarrow>
                                        (let s = s\<lparr>trace := trace s @
                                               map (\<lambda>i. Print_imu_prop i (ts ! nat i)
                                                      (q_W_Bs ! nat i) (p_W_Bs ! nat i))
                                                 [0..int (length ts) - 1]\<rparr>
                                         in DeskewByImuPropagation cloud odom ts q_W_Bs p_W_Bs s)))))))"

section \<open>Notions used in the statements\<close>

text \<open>
  The entry that iteration \<open>i\<close> of the extraction loop appends, as one triple; it is
  used to state what the loop computes (\<open>ExtractImuData_body_entry\<close>).
\<close>

definition ExtractImuData_entry ::
  "real \<Rightarrow> real \<Rightarrow> ImuMsg list \<Rightarrow> int \<Rightarrow> int \<Rightarrow> real \<times> Vector3d \<times> Vector3d" where
  "ExtractImuData_entry tstart tend imuSeq Nend i =
     (let mB = imuSeq ! nat i; mE = imuSeq ! nat (i + 1)
      in if i = 0 then
           (let s = (tstart - imu_stamp mB) / (imu_stamp mE - imu_stamp mB)
            in (tstart, lerp3 s (angular_velocity mB) (angular_velocity mE),
                lerp3 s (linear_acceleration mB) (linear_acceleration mE)))
         else if i = Nend then
           (let s = (tend - imu_stamp mB) / (imu_stamp mE - imu_stamp mB)
            in (tend, lerp3 s (angular_velocity mB) (angular_velocity mE),
                lerp3 s (linear_acceleration mB) (linear_acceleration mE)))
         else (imu_stamp mB, angular_velocity mB, linear_acceleration mB))"

text \<open>
  The condition of claim C7, in the words of the claim: some pair of consecutive stamps of
  the trajectory has \<open>ti\<close> between its two stamps.
\<close>

definition trajectory_brackets :: "real list \<Rightarrow> real \<Rightarrow> bool" where
  "trajectory_brackets ts ti \<longleftrightarrow> list_ex (\<lambda>(t0, t1). t0 \<le> ti \<and> ti \<le> t1) (zip ts (tl ts))"

text \<open>
  The number of poses that the pruning of \<open>matchOdomCloud\<close> drops, read off the buffer:
  the poses after the first one that are at or before \<open>t\<close>, up to the first later one.
\<close>

definition dropped_poses :: "real \<Rightarrow> OdomMsg list \<Rightarrow> nat" where
  "dropped_poses t buf = length (takeWhile (\<lambda>p. odom_stamp p \<le> t) (tl buf))"

section \<open>Concrete inputs\<close>

text \<open>Messages and states on which the theorems below are evaluated.\<close>

definition imu_sample :: "real \<Rightarrow> real \<Rightarrow> ImuMsg" where
  "imu_sample t w = \<lparr>imu_stamp = t, angular_velocity = (w, 0, 0), linear_acceleration = (0, 0, w)\<rparr>"


definition window_of_four :: "ImuMsg list" where
  "window_of_four = [imu_sample 0 1, imu_sample 1 2, imu_sample 2 3, imu_sample 3 4]"

definition sparse_window :: "ImuMsg list" where
  "sparse_window = [imu_sample 0 1, imu_sample 1 3]"

definition odom_at_rest :: OdomMsg where
  "odom_at_rest = \<lparr>odom_stamp = 0, orientation = \<lparr>qw = 1, qx = 0, qy = 0, qz = 0\<rparr>,
     position = (0, 0, 0), twist_linear = (0, 0, 0)\<rparr>"

definition sweep_100ms :: CloudMsg where
  "sweep_100ms = \<lparr>cloud_stamp = 0, cloud_seq = 0,
     cloud_points = [\<lparr>xyz = (1, 0, 0), intensity = 1, pt_t = 100000000, reflectivity = 1\<rparr>]\<rparr>"

definition gate_state :: node_state where
  "gate_state = initial_state\<lparr>oc_buf := [(odom_at_rest, sweep_100ms)],
     imu_buf := [imu_sample 0 1, imu_sample (1 / 8) 1]\<rparr>"

definition gate_state_short :: node_state where
  "gate_state_short = initial_state\<lparr>oc_buf := [(odom_at_rest, sweep_100ms)],
     imu_buf := [imu_sample 0 1, imu_sample (1 / 10) 1]\<rparr>"

definition odom_pose :: "real \<Rightarrow> OdomMsg" where
  "odom_pose t = odom_at_rest\<lparr>odom_stamp := t\<rparr>"

definition sweep_at :: "real \<Rightarrow> CloudMsg" where
  "sweep_at t = sweep_100ms\<lparr>cloud_stamp := t\<rparr>"

definition pairing_state :: node_state where
  "pairing_state = initial_state\<lparr>odom_buf := [odom_pose 0, odom_pose 1, odom_pose 2],
     cloud_hold := Some (sweep_at (3 / 2)), skip := 0\<rparr>"

definition waiting_state :: node_state where
  "waiting_state = initial_state\<lparr>odom_buf := [odom_pose 0, odom_pose 1],
     cloud_hold := Some (sweep_at (3 / 2)), skip := 0\<rparr>"



definition moving_pose :: OdomMsg where
  "moving_pose = \<lparr>odom_stamp = 0, orientation = \<lparr>qw = 0, qx = 0, qy = 0, qz = 1\<rparr>,
     position = (1, 2, 3), twist_linear = (1, 0, 0)\<rparr>"

definition unordered_sweep :: "PointOuster list" where
  "unordered_sweep =
     [\<lparr>xyz = (1, 1, 1), intensity = 5, pt_t = 9000000000, reflectivity = 7\<rparr>,
      \<lparr>xyz = (2, 0, 0), intensity = 6, pt_t = 5000000000, reflectivity = 8\<rparr>]"

definition eight_stamps :: "real list" where
  "eight_stamps = [0, 1, 2, 3, 4, 5, 6, 7]"

definition sparse_state :: node_state where
  "sparse_state = initial_state\<lparr>oc_buf := [(odom_at_rest, sweep_100ms)],
     imu_buf := [imu_sample 0 1, imu_sample (1 / 20) 1, imu_sample (1 / 5) 1]\<rparr>"

definition unordered_state :: node_state where
  "unordered_state = initial_state\<lparr>odom_buf := [odom_pose 0, odom_pose 5, odom_pose (1 / 2), odom_pose 3],
     cloud_hold := Some (sweep_at 1), skip := 0\<rparr>"

definition warmup_state :: node_state where
  "warmup_state = initial_state\<lparr>odom_buf := [odom_pose 0, odom_pose 2],
     cloud_hold := Some (sweep_at 1)\<rparr>"

definition tenth_stamps :: "real list" where
  "tenth_stamps = [0, 1 / 10, 2 / 10, 3 / 10, 4 / 10, 5 / 10, 6 / 10, 7 / 10]"

definition late_first_sweep :: "PointOuster list" where
  "late_first_sweep =
     [\<lparr>xyz = (1, 1, 1), intensity = 5, pt_t = 900000000, reflectivity = 7\<rparr>,
      \<lparr>xyz = (2, 0, 0), intensity = 6, pt_t = 500000000, reflectivity = 8\<rparr>]"

definition late_last_sweep :: "PointOuster list" where
  "late_last_sweep =
     [\<lparr>xyz = (1, 1, 1), intensity = 5, pt_t = 900000000, reflectivity = 7\<rparr>]"

definition repeated_stamp_state :: node_state where
  "repeated_stamp_state = initial_state\<lparr>oc_buf := [(odom_at_rest, sweep_100ms)],
     imu_buf := [imu_sample 0 1, imu_sample (1 / 20) 1, imu_sample (1 / 20) 1, imu_sample (1 / 2) 1]\<rparr>"

section \<open>Properties of the extraction\<close>

lemma ExtractImuData_body_lengths:
  "ExtractImuData_body tstart tend imuSeq Nend i (ts, gyro, acce) = (ts', gyro', acce') \<Longrightarrow>
   length ts' = Suc (length ts) \<and> length gyro' = Suc (length gyro) \<and>
   length acce' = Suc (length acce)"
  by (auto simp: ExtractImuData_body_def Let_def split: if_splits)

lemma fold_body_lengths:
  "fold (ExtractImuData_body tstart tend imuSeq Nend) is (ts, gyro, acce) = (ts', gyro', acce') \<Longrightarrow>
   length ts' = length ts + length is \<and> length gyro' = length gyro + length is \<and>
   length acce' = length acce + length is"
proof (induction "is" arbitrary: ts gyro acce)
  case Nil
  then show ?case by simp
next
  case (Cons i "is")
  obtain ts1 gyro1 acce1 where
    b: "ExtractImuData_body tstart tend imuSeq Nend i (ts, gyro, acce) = (ts1, gyro1, acce1)"
    by (metis prod_cases3)
  from Cons.prems b
  have "fold (ExtractImuData_body tstart tend imuSeq Nend) is (ts1, gyro1, acce1) = (ts', gyro', acce')"
    by simp
  from Cons.IH [OF this] ExtractImuData_body_lengths [OF b]
  show ?case by simp
qed



subsection \<open>The extraction on three or more samples\<close>

lemma ExtractImuData_body_entry:
  "ExtractImuData_body tstart tend imuSeq Nend i (ts, gyro, acce) =
     (case ExtractImuData_entry tstart tend imuSeq Nend i of
        (t, g, a) \<Rightarrow> (ts @ [t], gyro @ [g], acce @ [a]))"
  by (simp add: ExtractImuData_body_def ExtractImuData_entry_def Let_def)

lemma fold_ExtractImuData_body:
  "fold (ExtractImuData_body tstart tend imuSeq Nend) is (ts, gyro, acce) =
     (ts @ map (\<lambda>i. fst (ExtractImuData_entry tstart tend imuSeq Nend i)) is,
      gyro @ map (\<lambda>i. fst (snd (ExtractImuData_entry tstart tend imuSeq Nend i))) is,
      acce @ map (\<lambda>i. snd (snd (ExtractImuData_entry tstart tend imuSeq Nend i))) is)"
  by (induction "is" arbitrary: ts gyro acce)
     (simp_all add: ExtractImuData_body_entry split: prod.splits)

lemma map_nth_upto_tl:
  "k < length xs \<Longrightarrow> map (\<lambda>i. f (xs ! nat i)) [1..int k] = map f (take k (tl xs))"
proof (rule nth_equalityI)
  assume k: "k < length xs"
  then show "length (map (\<lambda>i. f (xs ! nat i)) [1..int k]) = length (map f (take k (tl xs)))"
    by simp
  fix j assume "j < length (map (\<lambda>i. f (xs ! nat i)) [1..int k])"
  then have j: "j < k" by simp
  then have "[1..int k] ! j = 1 + int j" by simp
  moreover have "nat (1 + int j) = Suc j" by simp
  ultimately show "map (\<lambda>i. f (xs ! nat i)) [1..int k] ! j = map f (take k (tl xs)) ! j"
    using j k by (simp add: nth_tl)
qed

text \<open>
  On at least three samples the output is the value interpolated at \<open>tstart\<close> between
  the first two samples, the samples of index \<open>1 .. size - 3\<close> unchanged and in order,
  and the value interpolated at \<open>tend\<close> between the last two samples.  The sample of
  index \<open>size - 2\<close> is used for the last interpolation only.
\<close>

lemma ExtractImuData_three_or_more:
  assumes n: "3 \<le> length imuSeq"
  shows "ExtractImuData ([], [], []) tstart tend imuSeq =
    (let n = length imuSeq;
         s0 = (tstart - imu_stamp (imuSeq ! 0)) / (imu_stamp (imuSeq ! 1) - imu_stamp (imuSeq ! 0));
         s1 = (tend - imu_stamp (imuSeq ! (n - 2))) /
              (imu_stamp (imuSeq ! (n - 1)) - imu_stamp (imuSeq ! (n - 2)));
         inner = take (n - 3) (tl imuSeq)
     in (tstart # map imu_stamp inner @ [tend],
         lerp3 s0 (angular_velocity (imuSeq ! 0)) (angular_velocity (imuSeq ! 1)) #
           map angular_velocity inner @
           [lerp3 s1 (angular_velocity (imuSeq ! (n - 2))) (angular_velocity (imuSeq ! (n - 1)))],
         lerp3 s0 (linear_acceleration (imuSeq ! 0)) (linear_acceleration (imuSeq ! 1)) #
           map linear_acceleration inner @
           [lerp3 s1 (linear_acceleration (imuSeq ! (n - 2))) (linear_acceleration (imuSeq ! (n - 1)))]))"
proof -
  let ?Nend = "int (length imuSeq) - 2"
  let ?k = "length imuSeq - 3"
  let ?E = "ExtractImuData_entry tstart tend imuSeq ?Nend"
  from n have N: "?Nend = int ?k + 1" by simp
  from n have split: "[0..?Nend] = 0 # [1..int ?k] @ [?Nend]"
    using upto_rec1 [of 0 ?Nend] upto_rec2 [of 1 ?Nend] by simp
  have inner: "map (\<lambda>i. h (?E i)) [1..int ?k] = map (\<lambda>i. h (imu_stamp (imuSeq ! nat i),
      angular_velocity (imuSeq ! nat i), linear_acceleration (imuSeq ! nat i))) [1..int ?k]" for h :: "real \<times> Vector3d \<times> Vector3d \<Rightarrow> 'a"
  proof (rule map_cong [OF refl])
    fix i assume "i \<in> set [1..int ?k]"
    then have "1 \<le> i" "i \<le> int ?k" by simp_all
    with n have "i \<noteq> 0" "i \<noteq> ?Nend" by arith+
    then show "h (?E i) = h (imu_stamp (imuSeq ! nat i),
        angular_velocity (imuSeq ! nat i), linear_acceleration (imuSeq ! nat i))"
      by (simp add: ExtractImuData_entry_def Let_def)
  qed
  from n have k: "?k < length imuSeq" by simp
  have m: "nat ?Nend = length imuSeq - 2" "nat (?Nend + 1) = length imuSeq - 1"
    using n by simp_all
  have e0: "?E 0 = (tstart,
      lerp3 ((tstart - imu_stamp (imuSeq ! 0)) / (imu_stamp (imuSeq ! 1) - imu_stamp (imuSeq ! 0)))
        (angular_velocity (imuSeq ! 0)) (angular_velocity (imuSeq ! 1)),
      lerp3 ((tstart - imu_stamp (imuSeq ! 0)) / (imu_stamp (imuSeq ! 1) - imu_stamp (imuSeq ! 0)))
        (linear_acceleration (imuSeq ! 0)) (linear_acceleration (imuSeq ! 1)))"
    by (simp add: ExtractImuData_entry_def Let_def)
  have eN: "?E ?Nend = (tend,
      lerp3 ((tend - imu_stamp (imuSeq ! (length imuSeq - 2))) /
             (imu_stamp (imuSeq ! (length imuSeq - 1)) - imu_stamp (imuSeq ! (length imuSeq - 2))))
        (angular_velocity (imuSeq ! (length imuSeq - 2))) (angular_velocity (imuSeq ! (length imuSeq - 1))),
      lerp3 ((tend - imu_stamp (imuSeq ! (length imuSeq - 2))) /
             (imu_stamp (imuSeq ! (length imuSeq - 1)) - imu_stamp (imuSeq ! (length imuSeq - 2))))
        (linear_acceleration (imuSeq ! (length imuSeq - 2))) (linear_acceleration (imuSeq ! (length imuSeq - 1))))"
    using n m by (simp add: ExtractImuData_entry_def Let_def)
  have i1: "map (\<lambda>i. fst (?E i)) [1..int ?k] = map imu_stamp (take ?k (tl imuSeq))"
    using inner [of fst] map_nth_upto_tl [OF k, of imu_stamp] by simp
  have i2: "map (\<lambda>i. fst (snd (?E i))) [1..int ?k] = map angular_velocity (take ?k (tl imuSeq))"
    using inner [of "\<lambda>x. fst (snd x)"] map_nth_upto_tl [OF k, of angular_velocity] by simp
  have i3: "map (\<lambda>i. snd (snd (?E i))) [1..int ?k] = map linear_acceleration (take ?k (tl imuSeq))"
    using inner [of "\<lambda>x. snd (snd x)"] map_nth_upto_tl [OF k, of linear_acceleration] by simp
  show ?thesis
    unfolding ExtractImuData_def Let_def fold_ExtractImuData_body split
    by (simp add: e0 eN i1 i2 i3 del: upto.simps)
qed

text \<open>At fraction \<open>0\<close> or \<open>1\<close> the interpolation is the value of one of the two samples.\<close>

lemma lerp3_ends: "lerp3 0 a b = a" "lerp3 1 a b = b"
  by (simp_all add: lerp3_def vadd_def vscale_def split: prod.splits)

subsection \<open>Two inputs on which the extraction loses an entry\<close>

text \<open>
  C3.  The claim: every sample strictly between \<open>tstart\<close> and \<open>tend\<close> is copied
  unchanged, in order.  On four samples stamped \<open>0, 1, 2, 3\<close> and the window
  \<open>[1/2, 5/2]\<close> the samples at \<open>1\<close> and \<open>2\<close> are strictly inside the window.
  The loop has one slot per index \<open>0 .. Nend\<close>, and the slot of index \<open>Nend\<close> holds
  the value interpolated at \<open>tend\<close>: the sample at \<open>2\<close> is not in the output.
\<close>

theorem ExtractImuData_drops_sample_before_tend:
  "sorted_wrt (<) (map imu_stamp window_of_four) \<and>
   imu_stamp (hd window_of_four) \<le> 1 / 2 \<and> 5 / 2 \<le> imu_stamp (last window_of_four) \<and>
   1 / 2 < imu_stamp (window_of_four ! 2) \<and> imu_stamp (window_of_four ! 2) < 5 / 2 \<and>
   ExtractImuData ([], [], []) (1 / 2) (5 / 2) window_of_four =
     ([1 / 2, 1, 5 / 2],
      [(3 / 2, 0, 0), (2, 0, 0), (7 / 2, 0, 0)],
      [(0, 0, 3 / 2), (0, 0, 2), (0, 0, 7 / 2)]) \<and>
   imu_stamp (window_of_four ! 2) \<notin>
     set (fst (ExtractImuData ([], [], []) (1 / 2) (5 / 2) window_of_four))"
  by (simp add: window_of_four_def imu_sample_def ExtractImuData_def ExtractImuData_body_def
        lerp3_def vadd_def vscale_def Let_def upto.simps)

text \<open>
  C4.  The claim: the first stamp of the output is \<open>tstart\<close> and the last one is
  \<open>tend\<close>.  On two samples stamped \<open>0\<close> and \<open>1\<close>, which bracket the window
  \<open>[1/10, 2/10]\<close>, the only index is \<open>0 = Nend\<close>, the first branch is taken, and the
  output is the single entry at \<open>tstart\<close>: its last stamp is not \<open>tend\<close>.
\<close>

theorem ExtractImuData_two_samples_no_tend:
  "sorted_wrt (<) (map imu_stamp sparse_window) \<and>
   imu_stamp (sparse_window ! 0) \<le> 1 / 10 \<and> 2 / 10 \<le> imu_stamp (sparse_window ! 1) \<and>
   ExtractImuData ([], [], []) (1 / 10) (2 / 10) sparse_window =
     ([1 / 10], [(12 / 10, 0, 0)], [(0, 0, 12 / 10)]) \<and>
   last (fst (ExtractImuData ([], [], []) (1 / 10) (2 / 10) sparse_window)) \<noteq> 2 / 10"
  by (simp add: sparse_window_def imu_sample_def ExtractImuData_def ExtractImuData_body_def
        lerp3_def vadd_def vscale_def Let_def upto.simps)

section \<open>Properties of the propagation\<close>

text \<open>
  The loop body copies \<open>Qo\<close>, \<open>Vo\<close> and \<open>Po\<close> into the new entry, so the carried
  state never changes and every vector grows by copies of its initial entry.
\<close>

lemma PropagateIMU_fold:
  "Qo (fold (PropagateIMU_body ts gyro_in acce_in) is st) = Qo st \<and>
   Po (fold (PropagateIMU_body ts gyro_in acce_in) is st) = Po st \<and>
   Vo (fold (PropagateIMU_body ts gyro_in acce_in) is st) = Vo st \<and>
   q_vec (fold (PropagateIMU_body ts gyro_in acce_in) is st) = q_vec st @ replicate (length is) (Qo st) \<and>
   p_vec (fold (PropagateIMU_body ts gyro_in acce_in) is st) = p_vec st @ replicate (length is) (Po st) \<and>
   v_vec (fold (PropagateIMU_body ts gyro_in acce_in) is st) = v_vec st @ replicate (length is) (Vo st)"
proof (induction "is" arbitrary: st)
  case Nil
  then show ?case by simp
next
  case (Cons i "is")
  show ?case
    by (simp add: Cons.IH) (simp add: PropagateIMU_body_def Let_def replicate_app_Cons_same)
qed

lemma PropagateIMU_copies:
  assumes "ts \<noteq> []" "length ts \<le> length gyro_in" "length ts \<le> length acce_in"
  shows "PropagateIMU odom ts gyro_in acce_in ([], [], []) =
     Inr (replicate (length ts) (orientation odom),
          replicate (length ts) (position odom),
          replicate (length ts) (quat_rotate (orientation odom) (twist_linear odom)))"
proof -
  from assms(1) have l: "length [1..int (length ts) - 1] = length ts - 1"
    by simp
  from assms(1) have r: "\<And>x. x # replicate (length ts - Suc 0) x = replicate (length ts) x"
    by (cases ts) simp_all
  from assms show ?thesis
    by (simp add: PropagateIMU_def Let_def PropagateIMU_fold l r del: length_upto)
qed

text \<open>
  C1.  The claim: each step composes the orientation with the increment of the corrected
  angular rate, adds the rotated corrected specific force plus gravity to the velocity
  and the velocity to the position, so that consecutive entries differ under a nonzero
  rate or force.  On a pose at rest, two samples one second apart, angular rate
  \<open>(1, 0, 0)\<close> and zero specific force, the corrected rate and the net force are not
  zero, and the two entries of the trajectory are equal: the step is the placeholder
  \<open>Qn = Qo\<close>, \<open>Vn = Vo\<close>, \<open>Pn = Po\<close>.
\<close>

theorem PropagateIMU_placeholder_step:
  "PropagateIMU odom_at_rest [0, 1] [(1, 0, 0), (1, 0, 0)] [(0, 0, 0), (0, 0, 0)] ([], [], []) =
     Inr ([orientation odom_at_rest, orientation odom_at_rest],
          [(0, 0, 0), (0, 0, 0)],
          [(0, 0, 0), (0, 0, 0)]) \<and>
   vadd (1, 0, 0) (vscale (- 1) bg) \<noteq> (0, 0, 0) \<and>
   vadd (quat_rotate (orientation odom_at_rest) (vadd (0, 0, 0) (vscale (- 1) ba))) grav \<noteq> (0, 0, 0)"
  by (simp add: PropagateIMU_def PropagateIMU_body_def odom_at_rest_def quat_rotate_def vcross_def
        vadd_def vscale_def bg_def ba_def grav_def Let_def)

section \<open>Properties of the readiness gate\<close>

lemma sweep_end_time_sweep_100ms: "sweep_end_time sweep_100ms = 1 / 10"
  by (simp add: sweep_end_time_def cloud_in_body_def transformPointCloud_def sweep_100ms_def)

text \<open>
  C2, as stated.  The claim: a pair is reported processable only if the back of the
  inertial buffer exceeds the end of the sweep (its stamp plus the relative time of its
  last point) plus \<open>0.125\<close> s.  The gate does not decode the sweep: it compares with the
  stamp of the sweep, its start.  A sweep stamped \<open>0\<close> that lasts \<open>0.1\<close> s, with the
  inertial buffer reaching \<open>0.125\<close> s, is reported processable although the buffer does
  not reach \<open>0.225\<close> s.
\<close>

theorem hasData_ready_before_sweep_end:
  "fst (hasData gate_state) \<and>
   \<not> imu_stamp (last (imu_buf gate_state)) > sweep_end_time (snd (hd (oc_buf gate_state))) + 0.125"
  by (simp add: hasData_def gate_state_def initial_state_def odom_at_rest_def imu_sample_def
       sweep_end_time_def cloud_in_body_def transformPointCloud_def sweep_100ms_def)

text \<open>
  C2, amended.  The gate reports a pair processable exactly when both buffers are
  non-empty, the front pair is not older than the front inertial sample, and the back of
  the inertial buffer is at least the stamp of the sweep (its start) plus \<open>0.125\<close> s.
  When only this last condition fails, the gate reports not ready, the pairing queue is
  unchanged, and the iteration of the processing loop ends after the two throttled
  messages, to be retried.
\<close>

theorem hasData_ready_iff_fixed_lookahead:
  "(fst (hasData s) \<longleftrightarrow>
      oc_buf s \<noteq> [] \<and> imu_buf s \<noteq> [] \<and>
      imu_stamp (hd (imu_buf s)) \<le> odom_stamp (fst (hd (oc_buf s))) \<and>
      cloud_stamp (snd (hd (oc_buf s))) + 0.125 \<le> imu_stamp (last (imu_buf s))) \<and>
   (oc_buf s \<noteq> [] \<and> imu_buf s \<noteq> [] \<and>
    imu_stamp (hd (imu_buf s)) \<le> odom_stamp (fst (hd (oc_buf s))) \<and>
    imu_stamp (last (imu_buf s)) < cloud_stamp (snd (hd (oc_buf s))) + 0.125 \<longrightarrow>
      \<not> fst (hasData s) \<and> oc_buf (snd (hasData s)) = oc_buf s \<and>
      processData_iteration s =
        Inr (say (ROS_INFO_THROTTLE ''Waiting for data...'')
          (say (ROS_WARN_THROTTLE
             ''hasData: IMU buffer doesn't propagate far enough to cover entire point cloud'') s)))"
  by (simp add: hasData_def processData_iteration_def say_def)

theorem hasData_ready_iff_fixed_lookahead_witness:
  "fst (hasData gate_state) \<and>
   cloud_stamp (snd (hd (oc_buf gate_state))) + 0.125 \<le> imu_stamp (last (imu_buf gate_state)) \<and>
   imu_stamp (last (imu_buf gate_state_short)) < cloud_stamp (snd (hd (oc_buf gate_state_short))) + 0.125 \<and>
   \<not> fst (hasData gate_state_short) \<and> 
   oc_buf (snd (hasData gate_state_short)) = [(odom_at_rest, sweep_100ms)]"
  using hasData_ready_iff_fixed_lookahead [of gate_state] hasData_ready_iff_fixed_lookahead [of gate_state_short]
  by (simp add: gate_state_def gate_state_short_def initial_state_def odom_at_rest_def imu_sample_def sweep_100ms_def)

section \<open>Properties of the pairing\<close>

lemma matchOdomCloud_prune_hd: "buf \<noteq> [] \<Longrightarrow> matchOdomCloud_prune t buf \<noteq> [] \<and> hd (matchOdomCloud_prune t buf) \<in> set buf"
  by (induction t buf rule: matchOdomCloud_prune.induct) auto

lemma matchOdomCloud_prune_most_recent:
  "sorted (map odom_stamp buf) \<Longrightarrow> 2 \<le> length (matchOdomCloud_prune t buf) \<Longrightarrow>
   p \<in> set buf \<Longrightarrow> odom_stamp p \<le> t \<Longrightarrow>
   odom_stamp p \<le> odom_stamp (matchOdomCloud_prune t buf ! 0)"
proof (induction t buf rule: matchOdomCloud_prune.induct)
  case (1 t p0 p1 rest)
  show ?case
  proof (cases "odom_stamp p1 \<le> t")
    case True
    from "1.prems"(1) have s: "sorted (map odom_stamp (p1 # rest))" by simp
    from True "1.prems"(2) have l: "2 \<le> length (matchOdomCloud_prune t (p1 # rest))" by simp
    show ?thesis
    proof (cases "p = p0")
      case True
      have "hd (matchOdomCloud_prune t (p1 # rest)) \<in> set (p1 # rest)"
        using matchOdomCloud_prune_hd [of "p1 # rest" t] by simp
      with "1.prems"(1) have "odom_stamp p0 \<le> odom_stamp (hd (matchOdomCloud_prune t (p1 # rest)))"
        by auto
      moreover have "hd (matchOdomCloud_prune t (p1 # rest)) = matchOdomCloud_prune t (p1 # rest) ! 0"
        using l by (cases "matchOdomCloud_prune t (p1 # rest)") auto
      ultimately show ?thesis using \<open>odom_stamp p1 \<le> t\<close> True by simp
    next
      case False
      with "1.prems"(3) have "p \<in> set (p1 # rest)" by simp
      from "1.IH" [OF True s l this "1.prems"(4)] True show ?thesis by simp
    qed
  next
    case False
    with "1.prems" show ?thesis by auto
  qed
qed simp_all

lemma matchOdomCloud_held:
  assumes "cloud_hold s = Some held"
  shows "matchOdomCloud s =
     Inr (let buf = matchOdomCloud_prune (cloud_stamp held) (odom_buf s)
          in if odom_pair_found (cloud_stamp held) buf then
               if 0 < skip s then s\<lparr>odom_buf := buf, skip := skip s - 1, cloud_hold := None\<rparr>
               else s\<lparr>odom_buf := buf, oc_buf := oc_buf s @ [(buf ! 0, held)], cloud_hold := None\<rparr>
             else s\<lparr>odom_buf := buf\<rparr>)"
proof -
  let ?buf = "matchOdomCloud_prune (cloud_stamp held) (odom_buf s)"
  have h: "hd ?buf = ?buf ! 0" if "odom_pair_found (cloud_stamp held) ?buf"
    using that by (cases ?buf) (auto simp: odom_pair_found_def)
  have a: "odom_stamp (?buf ! 0) \<le> cloud_stamp held" if "odom_pair_found (cloud_stamp held) ?buf"
    using that by (simp add: odom_pair_found_def)
  show ?thesis
    using assms h a by (simp add: matchOdomCloud_def odomCloudCallback_def Let_def)
qed

lemma cloud_hold_pairing_state: "cloud_hold pairing_state = Some (sweep_at (3 / 2))"
    by (simp add: pairing_state_def)

lemma cloud_stamp_sweep_at: "cloud_stamp (sweep_at t) = t" by (simp add: sweep_at_def)

lemma odom_stamp_odom_pose: "odom_stamp (odom_pose t) = t" by (simp add: odom_pose_def)


lemma cloud_hold_waiting_state: "cloud_hold waiting_state = Some (sweep_at (3 / 2))"
  by (simp add: waiting_state_def)

lemma matchOdomCloud_prune_dropped:
  "matchOdomCloud_prune t buf = drop (dropped_poses t buf) buf"
  by (induction t buf rule: matchOdomCloud_prune.induct) (simp_all add: dropped_poses_def)

lemma dropped_poses_next:
  assumes "Suc (dropped_poses t buf) < length buf"
  shows "t < odom_stamp (buf ! Suc (dropped_poses t buf))"
proof -
  let ?P = "\<lambda>p. odom_stamp p \<le> t"
  from assms have "length (takeWhile ?P (tl buf)) < length (tl buf)"
    by (simp add: dropped_poses_def)
  then have "\<not> ?P (tl buf ! length (takeWhile ?P (tl buf)))"
    by (rule nth_length_takeWhile)
  with assms show ?thesis
    by (simp add: dropped_poses_def nth_tl)
qed

lemma dropped_poses_sorted_bracket:
  assumes s: "sorted (map odom_stamp buf)"
    and i: "Suc i < length buf" "odom_stamp (buf ! i) \<le> t" "t < odom_stamp (buf ! Suc i)"
  shows "dropped_poses t buf = i"
proof -
  let ?P = "\<lambda>p. odom_stamp p \<le> t"
  have "takeWhile ?P (tl buf) = take i (tl buf)"
  proof (rule takeWhile_eq_take_P_nth)
    fix j assume j: "j < i" "j < length (tl buf)"
    with i(1) have "Suc j \<le> i" "i < length buf" by simp_all
    with s have "odom_stamp (buf ! Suc j) \<le> odom_stamp (buf ! i)"
      by (simp add: sorted_iff_nth_mono)
    with i(2) j show "?P (tl buf ! j)" by (simp add: nth_tl)
  next
    assume "i < length (tl buf)"
    with i(3) show "\<not> ?P (tl buf ! i)" by (simp add: nth_tl)
  qed
  with i(1) show ?thesis by (simp add: dropped_poses_def)
qed

lemma cloud_hold_unordered_state: "cloud_hold unordered_state = Some (sweep_at 1)"
  by (simp add: unordered_state_def)

lemma cloud_hold_warmup_state: "cloud_hold warmup_state = Some (sweep_at 1)"
  by (simp add: warmup_state_def)

text \<open>
  C6, as stated.  The claim is made for every state of the pose buffer, and says that the
  pair emitted is \<open>(p0, sweep)\<close> with \<open>p0\<close> the most recent pose at or before
  \<open>t\<close>.  The pruning loop only looks at the second pose of the buffer, and
  \<open>odomCallback\<close> appends poses in their order of arrival: on the buffer stamped
  \<open>0, 5, 1/2, 3\<close> and a sweep at \<open>t = 1\<close> nothing is dropped and the pose
  at \<open>0\<close> is paired, although the pose at \<open>1/2\<close> is later and at or before
  \<open>t\<close>.  And while the counter \<open>skip\<close> of \<open>odomCloudCallback\<close> is positive
  no pair is emitted at all: on the buffer stamped \<open>0, 2\<close>, which brackets \<open>t = 1\<close>,
  the sweep leaves the slot and the pairing queue stays empty.
\<close>

theorem matchOdomCloud_pairs_first_bracket_unordered:
  "matchOdomCloud unordered_state =
     Inr (unordered_state\<lparr>oc_buf := [(odom_pose 0, sweep_at 1)], cloud_hold := None\<rparr>) \<and>
   odom_pose (1 / 2) \<in> set (odom_buf unordered_state) \<and>
   odom_stamp (odom_pose 0) < odom_stamp (odom_pose (1 / 2)) \<and>
   odom_stamp (odom_pose (1 / 2)) \<le> cloud_stamp (sweep_at 1) \<and>
   odom_stamp (odom_buf warmup_state ! 0) \<le> cloud_stamp (sweep_at 1) \<and>
   cloud_stamp (sweep_at 1) \<le> odom_stamp (odom_buf warmup_state ! 1) \<and>
   matchOdomCloud warmup_state = Inr (warmup_state\<lparr>skip := 9, cloud_hold := None\<rparr>) \<and>
   oc_buf warmup_state = []"
proof -
  have u: "matchOdomCloud unordered_state =
     Inr (unordered_state\<lparr>oc_buf := [(odom_pose 0, sweep_at 1)], cloud_hold := None\<rparr>)"
    unfolding matchOdomCloud_held [OF cloud_hold_unordered_state]
    by (simp add: unordered_state_def initial_state_def odom_pair_found_def
          cloud_stamp_sweep_at odom_stamp_odom_pose)
  have w: "matchOdomCloud warmup_state = Inr (warmup_state\<lparr>skip := 9, cloud_hold := None\<rparr>)"
    unfolding matchOdomCloud_held [OF cloud_hold_warmup_state]
    by (simp add: warmup_state_def initial_state_def odom_pair_found_def
          cloud_stamp_sweep_at odom_stamp_odom_pose)
  from u w show ?thesis
    by (simp add: unordered_state_def warmup_state_def initial_state_def
          cloud_stamp_sweep_at odom_stamp_odom_pose)
qed

text \<open>
  C6, amended.  With a sweep staged at start time \<open>t\<close>, for every state of the pose
  buffer, \<open>matchOdomCloud\<close> drops the first \<open>k\<close> poses, where \<open>k\<close> counts the
  poses after the first one that are at or before \<open>t\<close>, up to the first later one.
  Pairing succeeds (the sweep leaves the slot) exactly when the poses \<open>p0\<close>, \<open>p1\<close>
  of index \<open>k\<close> and \<open>k + 1\<close> exist and \<open>p0 \<le> t \<le> p1\<close>; otherwise the sweep
  stays staged and nothing is queued, so no pair that does not bracket \<open>t\<close> is ever
  selected.  The pair handed to \<open>odomCloudCallback\<close> is \<open>(p0, sweep)\<close>: it is
  appended to the pairing queue, unless the counter \<open>skip\<close> is still positive, in which
  case it is discarded and the counter decremented.  When the buffer is ordered by time,
  pairing succeeds exactly when the buffer holds two consecutive poses with
  \<open>p0 \<le> t < p1\<close>, and \<open>p0\<close> is the most recent pose at or before \<open>t\<close>.
\<close>

theorem matchOdomCloud_pairs_bracketing_pose:
  assumes "cloud_hold s = Some held"
  shows "\<exists>s'. matchOdomCloud s = Inr s' \<and>
     odom_buf s' = drop (dropped_poses (cloud_stamp held) (odom_buf s)) (odom_buf s) \<and>
     (cloud_hold s' = None \<longleftrightarrow>
        Suc (dropped_poses (cloud_stamp held) (odom_buf s)) < length (odom_buf s) \<and>
        odom_stamp (odom_buf s ! dropped_poses (cloud_stamp held) (odom_buf s)) \<le> cloud_stamp held \<and>
        cloud_stamp held \<le> odom_stamp (odom_buf s ! Suc (dropped_poses (cloud_stamp held) (odom_buf s)))) \<and>
     (cloud_hold s' \<noteq> None \<longrightarrow>
        cloud_hold s' = Some held \<and> oc_buf s' = oc_buf s \<and> skip s' = skip s) \<and>
     (cloud_hold s' = None \<longrightarrow>
        (if 0 < skip s then oc_buf s' = oc_buf s \<and> skip s' = skip s - 1
         else oc_buf s' = oc_buf s @
                [(odom_buf s ! dropped_poses (cloud_stamp held) (odom_buf s), held)] \<and>
              skip s' = skip s)) \<and>
     (sorted (map odom_stamp (odom_buf s)) \<longrightarrow>
        (cloud_hold s' = None \<longleftrightarrow>
           (\<exists>i. Suc i < length (odom_buf s) \<and> odom_stamp (odom_buf s ! i) \<le> cloud_stamp held \<and>
                cloud_stamp held < odom_stamp (odom_buf s ! Suc i))) \<and>
        (cloud_hold s' = None \<longrightarrow>
           (\<forall>p \<in> set (odom_buf s). odom_stamp p \<le> cloud_stamp held \<longrightarrow>
              odom_stamp p \<le> odom_stamp (odom_buf s ! dropped_poses (cloud_stamp held) (odom_buf s)))))"
proof -
  let ?t = "cloud_stamp held"
  let ?b = "odom_buf s"
  let ?k = "dropped_poses ?t ?b"
  let ?buf = "matchOdomCloud_prune ?t ?b"
  let ?found = "Suc ?k < length ?b \<and> odom_stamp (?b ! ?k) \<le> ?t \<and> ?t \<le> odom_stamp (?b ! Suc ?k)"
  have buf: "?buf = drop ?k ?b" by (rule matchOdomCloud_prune_dropped)
  have f: "odom_pair_found ?t ?buf \<longleftrightarrow> ?found"
    unfolding buf odom_pair_found_def by (cases "Suc ?k < length ?b") auto
  have n0: "?buf ! 0 = ?b ! ?k" if ?found
    using that unfolding buf by simp
  have fwd: "\<exists>i. Suc i < length ?b \<and> odom_stamp (?b ! i) \<le> ?t \<and> ?t < odom_stamp (?b ! Suc i)"
    if fd: ?found
  proof -
    from fd have "?t < odom_stamp (?b ! Suc ?k)" using dropped_poses_next by blast
    with fd show ?thesis by blast
  qed
  have bwd: ?found
    if srt: "sorted (map odom_stamp ?b)"
      and ex: "\<exists>i. Suc i < length ?b \<and> odom_stamp (?b ! i) \<le> ?t \<and> ?t < odom_stamp (?b ! Suc i)"
  proof -
    from ex obtain i where
      i: "Suc i < length ?b" "odom_stamp (?b ! i) \<le> ?t" "?t < odom_stamp (?b ! Suc i)"
      by blast
    from dropped_poses_sorted_bracket [OF srt i] i show ?thesis by simp
  qed
  have recent: "\<forall>p \<in> set ?b. odom_stamp p \<le> ?t \<longrightarrow> odom_stamp p \<le> odom_stamp (?b ! ?k)"
    if srt: "sorted (map odom_stamp ?b)" and fd: ?found
  proof -
    from fd have "Suc ?k < length ?b" by blast
    then have l: "2 \<le> length ?buf" unfolding buf by simp
    from matchOdomCloud_prune_most_recent [OF srt l] n0 [OF fd]
    show ?thesis by auto
  qed
  have sortedpart: "(?found \<longleftrightarrow>
           (\<exists>i. Suc i < length ?b \<and> odom_stamp (?b ! i) \<le> ?t \<and> ?t < odom_stamp (?b ! Suc i))) \<and>
        (?found \<longrightarrow> (\<forall>p \<in> set ?b. odom_stamp p \<le> ?t \<longrightarrow> odom_stamp p \<le> odom_stamp (?b ! ?k)))"
    if srt: "sorted (map odom_stamp ?b)"
    using fwd bwd [OF srt] recent [OF srt] by blast
  define found where "found \<longleftrightarrow> ?found"
  define s' where "s' =
     (if found then
        if 0 < skip s then s\<lparr>odom_buf := drop ?k ?b, skip := skip s - 1, cloud_hold := None\<rparr>
        else s\<lparr>odom_buf := drop ?k ?b, oc_buf := oc_buf s @ [(?b ! ?k, held)], cloud_hold := None\<rparr>
      else s\<lparr>odom_buf := drop ?k ?b\<rparr>)"
  have pf: "odom_pair_found ?t (drop ?k ?b) \<longleftrightarrow> found"
    using f unfolding buf found_def .
  have m: "matchOdomCloud s = Inr s'"
  proof (cases found)
    case True
    then have ?found by (simp add: found_def)
    from n0 [OF this] have "drop ?k ?b ! 0 = ?b ! ?k" unfolding buf .
    with matchOdomCloud_held [OF assms] True show ?thesis
      unfolding buf s'_def by (simp add: Let_def pf)
  next
    case False
    with matchOdomCloud_held [OF assms] show ?thesis
      unfolding buf s'_def by (simp add: Let_def pf)
  qed
  have b: "odom_buf s' = drop ?k ?b"
    by (simp add: s'_def)
  have c: "cloud_hold s' = None \<longleftrightarrow> found"
    using assms by (simp add: s'_def)
  have d: "cloud_hold s' \<noteq> None \<longrightarrow>
      cloud_hold s' = Some held \<and> oc_buf s' = oc_buf s \<and> skip s' = skip s"
    using assms by (simp add: s'_def)
  have e: "cloud_hold s' = None \<longrightarrow>
      (if 0 < skip s then oc_buf s' = oc_buf s \<and> skip s' = skip s - 1
       else oc_buf s' = oc_buf s @ [(?b ! ?k, held)] \<and> skip s' = skip s)"
    using assms by (simp add: s'_def)
  have g: "sorted (map odom_stamp ?b) \<longrightarrow>
      (cloud_hold s' = None \<longleftrightarrow>
         (\<exists>i. Suc i < length ?b \<and> odom_stamp (?b ! i) \<le> ?t \<and> ?t < odom_stamp (?b ! Suc i))) \<and>
      (cloud_hold s' = None \<longrightarrow>
         (\<forall>p \<in> set ?b. odom_stamp p \<le> ?t \<longrightarrow> odom_stamp p \<le> odom_stamp (?b ! ?k)))"
    unfolding c found_def using sortedpart by blast
  show ?thesis
    by (rule exI [of _ s']) (intro conjI m b c [unfolded found_def] d e g)
qed

theorem matchOdomCloud_pairs_bracketing_pose_witness:
  "cloud_hold pairing_state = Some (sweep_at (3 / 2)) \<and>
   sorted (map odom_stamp (odom_buf pairing_state)) \<and>
   (\<exists>s'. matchOdomCloud pairing_state = Inr s' \<and> cloud_hold s' = None \<and>
      odom_buf s' = [odom_pose 1, odom_pose 2] \<and>
      oc_buf s' = [(odom_pose 1, sweep_at (3 / 2))]) \<and>
   cloud_hold waiting_state = Some (sweep_at (3 / 2)) \<and>
   (\<exists>s'. matchOdomCloud waiting_state = Inr s' \<and> cloud_hold s' = Some (sweep_at (3 / 2)) \<and>
      odom_buf s' = [odom_pose 1] \<and> oc_buf s' = []) \<and>
   cloud_hold warmup_state = Some (sweep_at 1) \<and> 0 < skip warmup_state \<and>
   (\<exists>s'. matchOdomCloud warmup_state = Inr s' \<and> cloud_hold s' = None \<and>
      oc_buf s' = [] \<and> skip s' = 9)"
proof -
  have k1: "dropped_poses (3 / 2) [odom_pose 0, odom_pose 1, odom_pose 2] = 1"
    by (simp add: dropped_poses_def odom_stamp_odom_pose)
  have k2: "dropped_poses (3 / 2) [odom_pose 0, odom_pose 1] = 1"
    by (simp add: dropped_poses_def odom_stamp_odom_pose)
  have k3: "dropped_poses 1 [odom_pose 0, odom_pose 2] = 0"
    by (simp add: dropped_poses_def odom_stamp_odom_pose)
  have a: "\<exists>s'. matchOdomCloud pairing_state = Inr s' \<and> cloud_hold s' = None \<and>
      odom_buf s' = [odom_pose 1, odom_pose 2] \<and>
      oc_buf s' = [(odom_pose 1, sweep_at (3 / 2))]"
    using matchOdomCloud_pairs_bracketing_pose [OF cloud_hold_pairing_state]
    by (auto simp: pairing_state_def initial_state_def cloud_stamp_sweep_at odom_stamp_odom_pose k1)
  have b: "\<exists>s'. matchOdomCloud waiting_state = Inr s' \<and> cloud_hold s' = Some (sweep_at (3 / 2)) \<and>
      odom_buf s' = [odom_pose 1] \<and> oc_buf s' = []"
    using matchOdomCloud_pairs_bracketing_pose [OF cloud_hold_waiting_state]
    by (auto simp: waiting_state_def initial_state_def cloud_stamp_sweep_at odom_stamp_odom_pose k2)
  have c: "\<exists>s'. matchOdomCloud warmup_state = Inr s' \<and> cloud_hold s' = None \<and>
      oc_buf s' = [] \<and> skip s' = 9"
    using matchOdomCloud_pairs_bracketing_pose [OF cloud_hold_warmup_state]
    by (auto simp: warmup_state_def initial_state_def cloud_stamp_sweep_at odom_stamp_odom_pose k3)
  from a b c show ?thesis
    by (simp add: pairing_state_def waiting_state_def warmup_state_def initial_state_def
          odom_stamp_odom_pose)
qed



section \<open>Properties of the deskewing\<close>

lemma length_fold_list_update:
  "length (fold (\<lambda>i out. out[nat i := f i]) is xs) = length xs"
  by (induction "is" arbitrary: xs) simp_all

lemma nth_fold_list_update:
  "k < length xs \<Longrightarrow>
   fold (\<lambda>i out. out[nat i := f i]) [0..int m - 1] xs ! k = (if k < m then f (int k) else xs ! k)"
proof (induction m)
  case 0
  then show ?case by simp
next
  case (Suc m)
  have "[0..int (Suc m) - 1] = [0..int m - 1] @ [int m]"
    using upto_rec2 [of 0 "int m"] by simp
  then have "fold (\<lambda>i out. out[nat i := f i]) [0..int (Suc m) - 1] xs =
      (fold (\<lambda>i out. out[nat i := f i]) [0..int m - 1] xs)[m := f (int m)]"
    by simp
  with Suc show ?case
    by (simp add: nth_list_update length_fold_list_update less_Suc_eq)
qed

lemma Deskew_body_update:
  "Deskew_body cloudSkewed cloudSkewedInWorld tstart =
     (\<lambda>i out. out[nat i := (cloudSkewedInWorld ! nat i)\<lparr>intensity := intensity (cloudSkewed ! nat i),
        pt_t := pt_t (cloudSkewed ! nat i), reflectivity := reflectivity (cloudSkewed ! nat i)\<rparr>])"
  by (intro ext) (simp add: Deskew_body_def Let_def)

lemma Deskew_points_eq:
  "Deskew_points cloudSkewed odom = transformPointCloud cloudSkewed (myTf_of_odom odom)"
proof (rule nth_equalityI)
  show "length (Deskew_points cloudSkewed odom) = length (transformPointCloud cloudSkewed (myTf_of_odom odom))"
    by (simp add: Deskew_points_def Let_def Deskew_body_update length_fold_list_update
          transformPointCloud_def)
next
  fix i assume "i < length (Deskew_points cloudSkewed odom)"
  then have i: "i < length cloudSkewed"
    by (simp add: Deskew_points_def Let_def Deskew_body_update length_fold_list_update)
  then show "Deskew_points cloudSkewed odom ! i = transformPointCloud cloudSkewed (myTf_of_odom odom) ! i"
    by (simp add: Deskew_points_def Let_def Deskew_body_update nth_fold_list_update
          transformPointCloud_def)
qed

lemma DeskewByImuPropagation_publishes:
  assumes "DeskewByImuPropagation cloudSkewed odom ts q p s = Inr s'" "8 \<le> length ts"
  shows "s' = say (publishCloud ''imuPropDeskewedCloudPub'' (Deskew_points cloudSkewed odom)
                 (odom_stamp odom) ''world_shifted'') s"
  using assms by (simp add: DeskewByImuPropagation_def Let_def split: if_splits)

text \<open>
  C8.  When the deskewer publishes a cloud (the resampled sequence has at least eight
  entries and no assertion fails), the cloud has as many points as the cloud it was given,
  and every point carries the intensity, the reflectivity and the relative time of the
  input point of the same index.
\<close>

theorem DeskewByImuPropagation_preserves_count_and_metadata:
  assumes "DeskewByImuPropagation cloudSkewed odom ts q p s = Inr s'" "8 \<le> length ts"
  shows "\<exists>out. trace s' = trace s @
           [publishCloud ''imuPropDeskewedCloudPub'' out (odom_stamp odom) ''world_shifted''] \<and>
         length out = length cloudSkewed \<and>
         (\<forall>i < length cloudSkewed.
            intensity (out ! i) = intensity (cloudSkewed ! i) \<and>
            reflectivity (out ! i) = reflectivity (cloudSkewed ! i) \<and>
            pt_t (out ! i) = pt_t (cloudSkewed ! i))"
proof -
  let ?out = "Deskew_points cloudSkewed odom"
  have "trace s' = trace s @
      [publishCloud ''imuPropDeskewedCloudPub'' ?out (odom_stamp odom) ''world_shifted'']"
    using DeskewByImuPropagation_publishes [OF assms] by (simp add: say_def)
  moreover have "length ?out = length cloudSkewed"
    by (simp add: Deskew_points_eq transformPointCloud_def)
  moreover have "\<forall>i < length cloudSkewed.
            intensity (?out ! i) = intensity (cloudSkewed ! i) \<and>
            reflectivity (?out ! i) = reflectivity (cloudSkewed ! i) \<and>
            pt_t (?out ! i) = pt_t (cloudSkewed ! i)"
    by (simp add: Deskew_points_eq transformPointCloud_def)
  ultimately show ?thesis by blast
qed

text \<open>
  C7, as stated.  The claim: every point whose sample time no pair of trajectory stamps
  brackets is left at the input point transformed by the start pose, and is not dropped
  from the output cloud.  The deskewer returns before it builds any cloud when the
  trajectory has fewer than eight stamps, and it asserts \<open>tend <= ts[ts.size()-1]\<close>
  for the last point of the sweep.  With the single stamp \<open>1/10\<close> and a point sampled
  at \<open>1\<close> the deskewer only warns: no cloud is published.  With the eight stamps
  \<open>0, 1/10, .., 7/10\<close> and a sweep whose last point is sampled at \<open>9/10\<close> the
  assertion fails.
\<close>

theorem DeskewByImuPropagation_drops_uncovered_points:
  "\<not> trajectory_brackets [1 / 10]
       (odom_stamp (odom_pose (1 / 10)) + real_of_int (pt_t (late_last_sweep ! 0)) / 1000000000) \<and>
   DeskewByImuPropagation late_last_sweep (odom_pose (1 / 10)) [1 / 10]
       [orientation (odom_pose (1 / 10))] [position (odom_pose (1 / 10))] initial_state =
     Inr (say (ROS_WARN ''Short/empty IMU sequence, ignoring'') initial_state) \<and>
   \<not> trajectory_brackets tenth_stamps
       (odom_stamp moving_pose + real_of_int (pt_t (late_last_sweep ! 0)) / 1000000000) \<and>
   DeskewByImuPropagation late_last_sweep moving_pose tenth_stamps
       (replicate 8 (orientation moving_pose)) (replicate 8 (position moving_pose)) initial_state =
     Inl AssertionFailed"
  by (simp add: trajectory_brackets_def DeskewByImuPropagation_def late_last_sweep_def
        tenth_stamps_def moving_pose_def odom_stamp_odom_pose Let_def)

text \<open>
  C7, amended.  When the trajectory has at least eight stamps and the two assertions of
  the deskewer hold (\<open>ts[0] <= tstart\<close>, and \<open>tend <= ts[ts.size()-1]\<close> for the last
  point of the sweep), the deskewer publishes a cloud with as many points as the sweep,
  and every point of the sweep whose sample time \<open>ti = tstart + t / 1e9\<close> no pair of
  consecutive trajectory stamps brackets lies in it at the input point transformed by
  the start pose.
\<close>

theorem DeskewByImuPropagation_fallback_position:
  assumes len: "8 \<le> length ts"
    and first: "ts ! 0 \<le> odom_stamp odom"
    and final: "odom_stamp odom + real_of_int (pt_t (last cloudSkewed)) * (1 / 1000000000)
                  \<le> ts ! (length ts - 1)"
    and i: "i < length cloudSkewed"
    and outside: "\<not> trajectory_brackets ts
                    (odom_stamp odom + real_of_int (pt_t (cloudSkewed ! i)) / 1000000000)"
  shows "\<exists>out. DeskewByImuPropagation cloudSkewed odom ts q p s =
           Inr (say (publishCloud ''imuPropDeskewedCloudPub'' out (odom_stamp odom)
                  ''world_shifted'') s) \<and>
         length out = length cloudSkewed \<and>
         xyz (out ! i) = tf_apply (myTf_of_odom odom) (xyz (cloudSkewed ! i))"
proof -
  let ?out = "Deskew_points cloudSkewed odom"
  from i have "cloudSkewed \<noteq> []" by auto
  with len first final
  have "DeskewByImuPropagation cloudSkewed odom ts q p s =
      Inr (say (publishCloud ''imuPropDeskewedCloudPub'' ?out (odom_stamp odom) ''world_shifted'') s)"
    by (simp add: DeskewByImuPropagation_def Let_def)
  moreover have "length ?out = length cloudSkewed"
    by (simp add: Deskew_points_eq transformPointCloud_def)
  moreover from i have "xyz (?out ! i) = tf_apply (myTf_of_odom odom) (xyz (cloudSkewed ! i))"
    by (simp add: Deskew_points_eq transformPointCloud_def)
  ultimately show ?thesis by blast
qed

lemma DeskewByImuPropagation_unordered_sweep:
  "DeskewByImuPropagation unordered_sweep moving_pose eight_stamps [] [] initial_state =
     Inr (say (publishCloud ''imuPropDeskewedCloudPub'' (Deskew_points unordered_sweep moving_pose)
                 0 ''world_shifted'') initial_state)"
  by (simp add: DeskewByImuPropagation_def Let_def unordered_sweep_def moving_pose_def eight_stamps_def)

theorem DeskewByImuPropagation_preserves_count_and_metadata_witness:
  "8 \<le> length eight_stamps \<and>
   (\<exists>out. DeskewByImuPropagation unordered_sweep moving_pose eight_stamps [] [] initial_state =
       Inr (say (publishCloud ''imuPropDeskewedCloudPub'' out 0 ''world_shifted'') initial_state) \<and>
     length out = 2 \<and>
     intensity (out ! 0) = 5 \<and> reflectivity (out ! 0) = 7 \<and> pt_t (out ! 0) = 9000000000 \<and>
     intensity (out ! 1) = 6 \<and> reflectivity (out ! 1) = 8 \<and> pt_t (out ! 1) = 5000000000)"
proof -
  have l: "8 \<le> length eight_stamps" by (simp add: eight_stamps_def)
  from DeskewByImuPropagation_preserves_count_and_metadata [OF DeskewByImuPropagation_unordered_sweep l] obtain out where
    t: "trace (say (publishCloud ''imuPropDeskewedCloudPub'' (Deskew_points unordered_sweep moving_pose)
                 0 ''world_shifted'') initial_state) = trace initial_state @
           [publishCloud ''imuPropDeskewedCloudPub'' out (odom_stamp moving_pose) ''world_shifted'']"
    and n: "length out = length unordered_sweep"
    and m: "\<forall>i < length unordered_sweep.
            intensity (out ! i) = intensity (unordered_sweep ! i) \<and>
            reflectivity (out ! i) = reflectivity (unordered_sweep ! i) \<and>
            pt_t (out ! i) = pt_t (unordered_sweep ! i)"
    by blast
  from t have o: "out = Deskew_points unordered_sweep moving_pose"
    by (simp add: say_def)
  from m have "intensity (out ! 0) = 5 \<and> reflectivity (out ! 0) = 7 \<and> pt_t (out ! 0) = 9000000000 \<and>
     intensity (out ! 1) = 6 \<and> reflectivity (out ! 1) = 8 \<and> pt_t (out ! 1) = 5000000000"
    by (simp add: unordered_sweep_def)
  moreover from n have "length out = 2"
    by (simp add: unordered_sweep_def)
  moreover from o DeskewByImuPropagation_unordered_sweep
  have "DeskewByImuPropagation unordered_sweep moving_pose eight_stamps [] [] initial_state =
       Inr (say (publishCloud ''imuPropDeskewedCloudPub'' out 0 ''world_shifted'') initial_state)"
    by simp
  ultimately show ?thesis using l by blast
qed

theorem DeskewByImuPropagation_fallback_position_witness:
  "8 \<le> length tenth_stamps \<and>
   tenth_stamps ! 0 \<le> odom_stamp moving_pose \<and>
   odom_stamp moving_pose + real_of_int (pt_t (last late_first_sweep)) * (1 / 1000000000)
     \<le> tenth_stamps ! (length tenth_stamps - 1) \<and>
   0 < length late_first_sweep \<and>
   \<not> trajectory_brackets tenth_stamps
       (odom_stamp moving_pose + real_of_int (pt_t (late_first_sweep ! 0)) / 1000000000) \<and>
   (\<exists>out. DeskewByImuPropagation late_first_sweep moving_pose tenth_stamps
            (replicate 8 (orientation moving_pose)) (replicate 8 (position moving_pose))
            initial_state =
       Inr (say (publishCloud ''imuPropDeskewedCloudPub'' out 0 ''world_shifted'') initial_state) \<and>
     length out = 2 \<and> xyz (out ! 0) = (0, 1, 4))"
proof -
  have l: "8 \<le> length tenth_stamps" by (simp add: tenth_stamps_def)
  have f: "tenth_stamps ! 0 \<le> odom_stamp moving_pose"
    by (simp add: tenth_stamps_def moving_pose_def)
  have e: "odom_stamp moving_pose + real_of_int (pt_t (last late_first_sweep)) * (1 / 1000000000)
     \<le> tenth_stamps ! (length tenth_stamps - 1)"
    by (simp add: tenth_stamps_def moving_pose_def late_first_sweep_def)
  have i: "0 < length late_first_sweep" by (simp add: late_first_sweep_def)
  have b: "\<not> trajectory_brackets tenth_stamps
      (odom_stamp moving_pose + real_of_int (pt_t (late_first_sweep ! 0)) / 1000000000)"
    by (simp add: trajectory_brackets_def tenth_stamps_def moving_pose_def late_first_sweep_def)
  have x: "tf_apply (myTf_of_odom moving_pose) (xyz (late_first_sweep ! 0)) = (0, 1, 4)"
    by (simp add: late_first_sweep_def moving_pose_def tf_apply_def myTf_of_odom_def quat_rotate_def
          vcross_def vadd_def vscale_def Let_def)
  have o: "odom_stamp moving_pose = 0" by (simp add: moving_pose_def)
  have n: "length late_first_sweep = 2" by (simp add: late_first_sweep_def)
  from DeskewByImuPropagation_fallback_position [OF l f e i b, of "replicate 8 (orientation moving_pose)"
      "replicate 8 (position moving_pose)" initial_state]
  have "\<exists>out. DeskewByImuPropagation late_first_sweep moving_pose tenth_stamps
            (replicate 8 (orientation moving_pose)) (replicate 8 (position moving_pose))
            initial_state =
       Inr (say (publishCloud ''imuPropDeskewedCloudPub'' out 0 ''world_shifted'') initial_state) \<and>
     length out = 2 \<and> xyz (out ! 0) = (0, 1, 4)"
    unfolding x o n .
  with l f e i b show ?thesis by blast
qed

section \<open>Properties of the processing loop\<close>

lemma cloud_in_body_sweep_100ms:
  "cloud_in_body sweep_100ms =
     [\<lparr>xyz = (- 1.006253, 0.011775, 0.028535), intensity = 1, pt_t = 100000000, reflectivity = 1\<rparr>]"
  by (simp add: cloud_in_body_def transformPointCloud_def sweep_100ms_def tf_Bimu_Blidar_def
        tf_apply_def quat_rotate_def vcross_def vadd_def vscale_def Let_def)

lemma sweep_100ms_fields: "cloud_stamp sweep_100ms = 0" "cloud_seq sweep_100ms = 0"
  by (simp_all add: sweep_100ms_def)

lemma hasData_sparse_state: "hasData sparse_state = (True, sparse_state)"
  by (simp add: hasData_def sparse_state_def initial_state_def odom_at_rest_def imu_sample_def
        sweep_100ms_fields)

lemma ExtractImuData_sparse_state:
  "ExtractImuData ([], [], []) 0 (1 / 10) [imu_sample 0 1, imu_sample (1 / 20) 1, imu_sample (1 / 5) 1] =
     ([0, 1 / 10], [(1, 0, 0), (1, 0, 0)], [(0, 0, 1), (0, 0, 1)])"
  by (simp add: imu_sample_def ExtractImuData_def ExtractImuData_body_def
        lerp3_def vadd_def vscale_def Let_def upto.simps)

lemma hasData_ready: "fst (hasData s) \<Longrightarrow> hasData s = (True, s)"
  by (simp add: hasData_def split: if_splits)

lemma ExtractImuData_lengths:
  assumes "2 \<le> length imuSeq"
    and "ExtractImuData (ts, gyro, acce) tstart tend imuSeq = (ts', gyro', acce')"
  shows "length ts' = length ts + (length imuSeq - 1)"
    and "length gyro' = length gyro + (length imuSeq - 1)"
    and "length acce' = length acce + (length imuSeq - 1)"
proof -
  let ?Nend = "int (length imuSeq) - 2"
  from assms(2)
  have f: "fold (ExtractImuData_body tstart tend imuSeq ?Nend) [0..?Nend] (ts, gyro, acce)
      = (ts', gyro', acce')"
    by (simp add: ExtractImuData_def Let_def)
  from assms(1) have l: "length [0..?Nend] = length imuSeq - 1"
    by simp
  from fold_body_lengths [OF f] l
  show "length ts' = length ts + (length imuSeq - 1)"
    and "length gyro' = length gyro + (length imuSeq - 1)"
    and "length acce' = length acce + (length imuSeq - 1)"
    by simp_all
qed

lemma map_Print_imu_prop_replicate:
  "map (\<lambda>i. Print_imu_prop i (ts ! nat i) (replicate (length ts) q0 ! nat i)
             (replicate (length ts) p0 ! nat i)) [0..int (length ts) - 1] =
   map (\<lambda>i. Print_imu_prop i (ts ! nat i) q0 p0) [0..int (length ts) - 1]"
  by (rule map_cong) auto

text \<open>
  An iteration that finds a window of at least two samples in increasing order runs the
  extraction and the propagation, reports them, and ends with the deskewer.
\<close>

lemma processData_iteration_window:
  assumes ready: "fst (hasData s)"
    and front: "oc_buf s = (odom, cloudMsg) # oc_rest"
    and pts: "cloud_points cloudMsg \<noteq> []"
    and seq: "processData_gather (sweep_end_time cloudMsg)
                (processData_prune (odom_stamp odom) (imu_buf s)) = imuSeq"
    and two: "2 \<le> length imuSeq"
    and reach: "\<not> imu_stamp (last imuSeq) < odom_stamp odom"
    and inc: "stamps_increasing imuSeq"
    and ext: "ExtractImuData ([], [], []) (odom_stamp odom) (sweep_end_time cloudMsg) imuSeq =
                (ts, gyro, acce)"
  shows "processData_iteration s =
     DeskewByImuPropagation (cloud_in_body cloudMsg) odom ts
       (replicate (length ts) (orientation odom)) (replicate (length ts) (position odom))
       (s\<lparr>oc_buf := oc_rest,
          imu_buf := processData_prune (odom_stamp odom) (imu_buf s),
          cloudCount := cloudCount s + 1,
          trace := trace s @
            [Print_count (cloudCount s + 1) (cloud_seq cloudMsg),
             publishCloud ''distortedCloudPub''
               (transformPointCloud (cloud_in_body cloudMsg) (myTf_of_odom odom))
               (odom_stamp odom) ''world''] @
            map (\<lambda>i. Print_imu_prop i (ts ! nat i) (orientation odom) (position odom))
              [0..int (length ts) - 1]\<rparr>)"
proof -
  from pts have c: "cloud_in_body cloudMsg \<noteq> []"
    by (simp add: cloud_in_body_def transformPointCloud_def)
  from ExtractImuData_lengths [OF two ext]
  have l: "length ts = length imuSeq - 1" "length gyro = length imuSeq - 1"
    "length acce = length imuSeq - 1"
    by simp_all
  with two have "ts \<noteq> []" "length ts \<le> length gyro" "length ts \<le> length acce"
    by auto
  from PropagateIMU_copies [OF this]
  have p: "PropagateIMU odom ts gyro acce ([], [], []) =
     Inr (replicate (length ts) (orientation odom),
          replicate (length ts) (position odom),
          replicate (length ts) (quat_rotate (orientation odom) (twist_linear odom)))" .
  from two have n: "\<not> length imuSeq < 2" by simp
  show ?thesis
    by (simp add: processData_iteration_def hasData_ready [OF ready] front c seq n reach inc ext p
          map_Print_imu_prop_replicate say_def Let_def del: length_upto)
qed

lemma sparse_state_ready: "fst (hasData sparse_state)"
  by (simp add: hasData_sparse_state)

lemma sparse_state_front: "oc_buf sparse_state = (odom_at_rest, sweep_100ms) # []"
  by (simp add: sparse_state_def)

lemma sweep_100ms_points: "cloud_points sweep_100ms \<noteq> []"
  by (simp add: sweep_100ms_def)

lemma odom_at_rest_fields: "odom_stamp odom_at_rest = 0" "position odom_at_rest = (0, 0, 0)"
  by (simp_all add: odom_at_rest_def)

lemma sparse_state_window:
  "processData_gather (sweep_end_time sweep_100ms)
      (processData_prune (odom_stamp odom_at_rest) (imu_buf sparse_state)) =
   [imu_sample 0 1, imu_sample (1 / 20) 1, imu_sample (1 / 5) 1]"
  by (simp add: sweep_end_time_sweep_100ms odom_at_rest_fields sparse_state_def) (simp add: imu_sample_def)

lemma sparse_window_ok:
  "2 \<le> length [imu_sample 0 1, imu_sample (1 / 20) 1, imu_sample (1 / 5) 1]"
  "\<not> imu_stamp (last [imu_sample 0 1, imu_sample (1 / 20) 1, imu_sample (1 / 5) 1])
       < odom_stamp odom_at_rest"
  "stamps_increasing [imu_sample 0 1, imu_sample (1 / 20) 1, imu_sample (1 / 5) 1]"
  by (simp_all add: imu_sample_def odom_at_rest_fields)

lemma processData_iteration_outside:
  assumes ready: "fst (hasData s)"
    and front: "oc_buf s = (odom, cloudMsg) # oc_rest"
    and pts: "cloud_points cloudMsg \<noteq> []"
    and seq: "processData_gather (sweep_end_time cloudMsg)
                (processData_prune (odom_stamp odom) (imu_buf s)) = imuSeq"
    and out: "length imuSeq < 2 \<or> imu_stamp (last imuSeq) < odom_stamp odom"
  shows "processData_iteration s =
     Inr (say (ROS_WARN_THROTTLE ''Pointcloud timestamp outside of IMU buffer window'')
            (s\<lparr>oc_buf := oc_rest, imu_buf := processData_prune (odom_stamp odom) (imu_buf s)\<rparr>))"
proof -
  from pts have c: "cloud_in_body cloudMsg \<noteq> []"
    by (simp add: cloud_in_body_def transformPointCloud_def)
  show ?thesis
    using out
    by (simp add: processData_iteration_def hasData_ready [OF ready] front c seq Let_def)
qed

lemma processData_iteration_unordered:
  assumes ready: "fst (hasData s)"
    and front: "oc_buf s = (odom, cloudMsg) # oc_rest"
    and pts: "cloud_points cloudMsg \<noteq> []"
    and seq: "processData_gather (sweep_end_time cloudMsg)
                (processData_prune (odom_stamp odom) (imu_buf s)) = imuSeq"
    and two: "2 \<le> length imuSeq"
    and reach: "\<not> imu_stamp (last imuSeq) < odom_stamp odom"
    and dis: "\<not> stamps_increasing imuSeq"
  shows "processData_iteration s = Inl AssertionFailed"
proof -
  from pts have c: "cloud_in_body cloudMsg \<noteq> []"
    by (simp add: cloud_in_body_def transformPointCloud_def)
  from two have n: "\<not> length imuSeq < 2" by simp
  show ?thesis
    by (simp add: processData_iteration_def hasData_ready [OF ready] front c seq n reach dis Let_def)
qed

lemma processData_iteration_short:
  assumes ready: "fst (hasData s)"
    and front: "oc_buf s = (odom, cloudMsg) # oc_rest"
    and pts: "cloud_points cloudMsg \<noteq> []"
    and seq: "processData_gather (sweep_end_time cloudMsg)
                (processData_prune (odom_stamp odom) (imu_buf s)) = imuSeq"
    and two: "2 \<le> length imuSeq"
    and short: "length imuSeq < 8"
    and reach: "\<not> imu_stamp (last imuSeq) < odom_stamp odom"
    and inc: "stamps_increasing imuSeq"
  shows "\<exists>ts gyro acce.
     ExtractImuData ([], [], []) (odom_stamp odom) (sweep_end_time cloudMsg) imuSeq = (ts, gyro, acce) \<and>
     length ts = length imuSeq - 1 \<and>
     processData_iteration s =
       Inr (s\<lparr>oc_buf := oc_rest,
              imu_buf := processData_prune (odom_stamp odom) (imu_buf s),
              cloudCount := cloudCount s + 1,
              trace := trace s @
                [Print_count (cloudCount s + 1) (cloud_seq cloudMsg),
                 publishCloud ''distortedCloudPub''
                   (transformPointCloud (cloud_in_body cloudMsg) (myTf_of_odom odom))
                   (odom_stamp odom) ''world''] @
                map (\<lambda>i. Print_imu_prop i (ts ! nat i) (orientation odom) (position odom))
                  [0..int (length ts) - 1] @
                [ROS_WARN ''Short/empty IMU sequence, ignoring'']\<rparr>)"
proof -
  obtain ts gyro acce where
    ext: "ExtractImuData ([], [], []) (odom_stamp odom) (sweep_end_time cloudMsg) imuSeq = (ts, gyro, acce)"
    by (metis prod_cases3)
  from ExtractImuData_lengths(1) [OF two ext] have l: "length ts = length imuSeq - 1"
    by simp
  with short have s: "length ts < 8" by simp
  have "processData_iteration s =
       Inr (s\<lparr>oc_buf := oc_rest,
              imu_buf := processData_prune (odom_stamp odom) (imu_buf s),
              cloudCount := cloudCount s + 1,
              trace := trace s @
                [Print_count (cloudCount s + 1) (cloud_seq cloudMsg),
                 publishCloud ''distortedCloudPub''
                   (transformPointCloud (cloud_in_body cloudMsg) (myTf_of_odom odom))
                   (odom_stamp odom) ''world''] @
                map (\<lambda>i. Print_imu_prop i (ts ! nat i) (orientation odom) (position odom))
                  [0..int (length ts) - 1] @
                [ROS_WARN ''Short/empty IMU sequence, ignoring'']\<rparr>)"
    unfolding processData_iteration_window [OF ready front pts seq two reach inc ext]
    using s by (simp add: DeskewByImuPropagation_def say_def del: length_upto)
  with ext l show ?thesis by blast
qed

lemma repeated_stamp_state_ready: "fst (hasData repeated_stamp_state)"
  by (simp add: hasData_def repeated_stamp_state_def initial_state_def odom_at_rest_def imu_sample_def
        sweep_100ms_fields)

lemma repeated_stamp_state_front: "oc_buf repeated_stamp_state = (odom_at_rest, sweep_100ms) # []"
  by (simp add: repeated_stamp_state_def)

lemma repeated_stamp_state_window:
  "processData_gather (sweep_end_time sweep_100ms)
      (processData_prune (odom_stamp odom_at_rest) (imu_buf repeated_stamp_state)) =
   [imu_sample 0 1, imu_sample (1 / 20) 1, imu_sample (1 / 20) 1, imu_sample (1 / 2) 1]"
  by (simp add: sweep_end_time_sweep_100ms odom_at_rest_fields repeated_stamp_state_def)
     (simp add: imu_sample_def)

lemma repeated_window_facts:
  "2 \<le> length [imu_sample 0 1, imu_sample (1 / 20) 1, imu_sample (1 / 20) 1, imu_sample (1 / 2) 1]"
  "\<not> imu_stamp (last [imu_sample 0 1, imu_sample (1 / 20) 1, imu_sample (1 / 20) 1, imu_sample (1 / 2) 1])
       < odom_stamp odom_at_rest"
  "\<not> stamps_increasing [imu_sample 0 1, imu_sample (1 / 20) 1, imu_sample (1 / 20) 1, imu_sample (1 / 2) 1]"
  by (simp_all add: imu_sample_def odom_at_rest_fields)

text \<open>
  C5, as stated.  The claim: with fewer than eight samples around the window the
  extraction is aborted, no resampled sequence is produced or propagated, and the sweep
  is skipped rather than treated as fatal.  The check on the number of samples is the
  first statement of the deskewer, which runs last.  With three samples in the buffer the
  iteration publishes the distorted cloud, extracts the two stamps \<open>0\<close> and
  \<open>1/10\<close>, propagates them (the two reports of the propagated pose are in the
  trace), and only then warns and returns.  And with four samples of which two carry the
  same stamp, the ordering assertion of the loop fails: the iteration aborts.
\<close>

theorem processData_extracts_before_short_check:
  "length (imu_buf sparse_state) < 8 \<and>
   processData_iteration sparse_state =
     Inr (sparse_state\<lparr>oc_buf := [], cloudCount := 0,
            trace := [Print_count 0 0,
                      publishCloud ''distortedCloudPub'' (cloud_in_body sweep_100ms) 0 ''world'',
                      Print_imu_prop 0 0 (orientation odom_at_rest) (0, 0, 0),
                      Print_imu_prop 1 (1 / 10) (orientation odom_at_rest) (0, 0, 0),
                      ROS_WARN ''Short/empty IMU sequence, ignoring'']\<rparr>) \<and>
   length (imu_buf repeated_stamp_state) < 8 \<and>
   processData_iteration repeated_stamp_state = Inl AssertionFailed"
proof -
  let ?seq = "[imu_sample 0 1, imu_sample (1 / 20) 1, imu_sample (1 / 5) 1]"
  have x: "ExtractImuData ([], [], []) (odom_stamp odom_at_rest) (sweep_end_time sweep_100ms) ?seq =
      ([0, 1 / 10], [(1, 0, 0), (1, 0, 0)], [(0, 0, 1), (0, 0, 1)])"
    by (simp add: sweep_end_time_sweep_100ms odom_at_rest_fields ExtractImuData_sparse_state)
  have t: "transformPointCloud (cloud_in_body sweep_100ms) (myTf_of_odom odom_at_rest) =
      cloud_in_body sweep_100ms"
    by (simp add: cloud_in_body_sweep_100ms transformPointCloud_def myTf_of_odom_def odom_at_rest_def
          tf_apply_def quat_rotate_def vcross_def vadd_def vscale_def Let_def)
  have p: "processData_prune 0 (imu_buf sparse_state) = imu_buf sparse_state"
    by (simp add: sparse_state_def imu_sample_def)
  have "length (imu_buf sparse_state) < 8"
    by (simp add: sparse_state_def)
  moreover have "processData_iteration sparse_state =
     Inr (sparse_state\<lparr>oc_buf := [], cloudCount := 0,
            trace := [Print_count 0 0,
                      publishCloud ''distortedCloudPub'' (cloud_in_body sweep_100ms) 0 ''world'',
                      Print_imu_prop 0 0 (orientation odom_at_rest) (0, 0, 0),
                      Print_imu_prop 1 (1 / 10) (orientation odom_at_rest) (0, 0, 0),
                      ROS_WARN ''Short/empty IMU sequence, ignoring'']\<rparr>)"
    unfolding processData_iteration_window [OF sparse_state_ready sparse_state_front
        sweep_100ms_points sparse_state_window sparse_window_ok x]
    by (simp add: DeskewByImuPropagation_def say_def odom_at_rest_fields t p sweep_100ms_fields
          upto.simps)
       (simp add: sparse_state_def initial_state_def)
  moreover have "length (imu_buf repeated_stamp_state) < 8"
    by (simp add: repeated_stamp_state_def)
  moreover have "processData_iteration repeated_stamp_state = Inl AssertionFailed"
    by (rule processData_iteration_unordered [OF repeated_stamp_state_ready
          repeated_stamp_state_front sweep_100ms_points repeated_stamp_state_window
          repeated_window_facts])
  ultimately show ?thesis by simp
qed

text \<open>
  C5, amended.  When the gate has reported ready for a sweep with at least one point and
  fewer than eight samples are gathered around its window, the iteration does one of
  three things.  If fewer than two samples are gathered, or the last one is before the
  start of the window, it ends before any extraction with the throttled warning
  \<open>Pointcloud timestamp outside of IMU buffer window\<close>.  Otherwise, if the stamps of
  the window are not strictly increasing, the ordering assertion aborts the process.
  Otherwise the extraction is not aborted: the resampled sequence is extracted (one entry
  less than the window), propagated and reported, and the distorted cloud is published;
  then the deskewer warns \<open>Short/empty IMU sequence, ignoring\<close> and returns, so no
  deskewed cloud is published and the sweep is skipped rather than treated as fatal.
\<close>

theorem processData_short_window_skips_deskew:
  assumes ready: "fst (hasData s)"
    and front: "oc_buf s = (odom, cloudMsg) # oc_rest"
    and pts: "cloud_points cloudMsg \<noteq> []"
    and seq: "processData_gather (sweep_end_time cloudMsg)
                (processData_prune (odom_stamp odom) (imu_buf s)) = imuSeq"
    and short: "length imuSeq < 8"
  shows "(length imuSeq < 2 \<or> imu_stamp (last imuSeq) < odom_stamp odom \<longrightarrow>
            processData_iteration s =
              Inr (say (ROS_WARN_THROTTLE ''Pointcloud timestamp outside of IMU buffer window'')
                     (s\<lparr>oc_buf := oc_rest,
                        imu_buf := processData_prune (odom_stamp odom) (imu_buf s)\<rparr>))) \<and>
         (2 \<le> length imuSeq \<and> \<not> imu_stamp (last imuSeq) < odom_stamp odom \<and>
          \<not> stamps_increasing imuSeq \<longrightarrow>
            processData_iteration s = Inl AssertionFailed) \<and>
         (2 \<le> length imuSeq \<and> \<not> imu_stamp (last imuSeq) < odom_stamp odom \<and>
          stamps_increasing imuSeq \<longrightarrow>
            (\<exists>ts gyro acce.
               ExtractImuData ([], [], []) (odom_stamp odom) (sweep_end_time cloudMsg) imuSeq =
                 (ts, gyro, acce) \<and>
               length ts = length imuSeq - 1 \<and>
               processData_iteration s =
                 Inr (s\<lparr>oc_buf := oc_rest,
                        imu_buf := processData_prune (odom_stamp odom) (imu_buf s),
                        cloudCount := cloudCount s + 1,
                        trace := trace s @
                          [Print_count (cloudCount s + 1) (cloud_seq cloudMsg),
                           publishCloud ''distortedCloudPub''
                             (transformPointCloud (cloud_in_body cloudMsg) (myTf_of_odom odom))
                             (odom_stamp odom) ''world''] @
                          map (\<lambda>i. Print_imu_prop i (ts ! nat i) (orientation odom) (position odom))
                            [0..int (length ts) - 1] @
                          [ROS_WARN ''Short/empty IMU sequence, ignoring'']\<rparr>)))"
proof (intro conjI impI)
  assume "length imuSeq < 2 \<or> imu_stamp (last imuSeq) < odom_stamp odom"
  then show "processData_iteration s =
      Inr (say (ROS_WARN_THROTTLE ''Pointcloud timestamp outside of IMU buffer window'')
             (s\<lparr>oc_buf := oc_rest, imu_buf := processData_prune (odom_stamp odom) (imu_buf s)\<rparr>))"
    by (rule processData_iteration_outside [OF ready front pts seq])
next
  assume "2 \<le> length imuSeq \<and> \<not> imu_stamp (last imuSeq) < odom_stamp odom \<and>
          \<not> stamps_increasing imuSeq"
  then show "processData_iteration s = Inl AssertionFailed"
    using processData_iteration_unordered [OF ready front pts seq] by blast
next
  assume a: "2 \<le> length imuSeq \<and> \<not> imu_stamp (last imuSeq) < odom_stamp odom \<and>
          stamps_increasing imuSeq"
  then have two: "2 \<le> length imuSeq" and reach: "\<not> imu_stamp (last imuSeq) < odom_stamp odom"
    and inc: "stamps_increasing imuSeq"
    by simp_all
  show "\<exists>ts gyro acce.
               ExtractImuData ([], [], []) (odom_stamp odom) (sweep_end_time cloudMsg) imuSeq =
                 (ts, gyro, acce) \<and>
               length ts = length imuSeq - 1 \<and>
               processData_iteration s =
                 Inr (s\<lparr>oc_buf := oc_rest,
                        imu_buf := processData_prune (odom_stamp odom) (imu_buf s),
                        cloudCount := cloudCount s + 1,
                        trace := trace s @
                          [Print_count (cloudCount s + 1) (cloud_seq cloudMsg),
                           publishCloud ''distortedCloudPub''
                             (transformPointCloud (cloud_in_body cloudMsg) (myTf_of_odom odom))
                             (odom_stamp odom) ''world''] @
                          map (\<lambda>i. Print_imu_prop i (ts ! nat i) (orientation odom) (position odom))
                            [0..int (length ts) - 1] @
                          [ROS_WARN ''Short/empty IMU sequence, ignoring'']\<rparr>)"
    by (rule processData_iteration_short [OF ready front pts seq two short reach inc])
qed

theorem processData_short_window_skips_deskew_witness:
  "fst (hasData sparse_state) \<and> cloud_points sweep_100ms \<noteq> [] \<and>
   length (imu_buf sparse_state) < 8 \<and> stamps_increasing (imu_buf sparse_state) \<and>
   (\<exists>ts gyro acce s'.
      ExtractImuData ([], [], []) 0 (1 / 10) (imu_buf sparse_state) = (ts, gyro, acce) \<and>
      length ts = 2 \<and>
      processData_iteration sparse_state = Inr s' \<and>
      last (trace s') = ROS_WARN ''Short/empty IMU sequence, ignoring'') \<and>
   fst (hasData repeated_stamp_state) \<and>
   length (imu_buf repeated_stamp_state) < 8 \<and> \<not> stamps_increasing (imu_buf repeated_stamp_state) \<and>
   processData_iteration repeated_stamp_state = Inl AssertionFailed"
proof -
  have n: "length [imu_sample 0 1, imu_sample (1 / 20) 1, imu_sample (1 / 5) 1] < 8"
    by simp
  have b: "imu_buf sparse_state = [imu_sample 0 1, imu_sample (1 / 20) 1, imu_sample (1 / 5) 1]"
    by (simp add: sparse_state_def)
  from processData_short_window_skips_deskew [OF sparse_state_ready sparse_state_front sweep_100ms_points sparse_state_window n]
    sparse_window_ok
  obtain ts gyro acce s' where
    "ExtractImuData ([], [], []) (odom_stamp odom_at_rest) (sweep_end_time sweep_100ms)
       [imu_sample 0 1, imu_sample (1 / 20) 1, imu_sample (1 / 5) 1] = (ts, gyro, acce)"
    "length ts = length [imu_sample 0 1, imu_sample (1 / 20) 1, imu_sample (1 / 5) 1] - 1"
    "processData_iteration sparse_state = Inr s'"
    "last (trace s') = ROS_WARN ''Short/empty IMU sequence, ignoring''"
    by auto
  then have first: "\<exists>ts gyro acce s'.
      ExtractImuData ([], [], []) 0 (1 / 10) (imu_buf sparse_state) = (ts, gyro, acce) \<and>
      length ts = 2 \<and>
      processData_iteration sparse_state = Inr s' \<and>
      last (trace s') = ROS_WARN ''Short/empty IMU sequence, ignoring''"
    by (simp add: b odom_at_rest_fields sweep_end_time_sweep_100ms)
  have n': "length [imu_sample 0 1, imu_sample (1 / 20) 1, imu_sample (1 / 20) 1, imu_sample (1 / 2) 1] < 8"
    by simp
  have b': "imu_buf repeated_stamp_state =
      [imu_sample 0 1, imu_sample (1 / 20) 1, imu_sample (1 / 20) 1, imu_sample (1 / 2) 1]"
    by (simp add: repeated_stamp_state_def)
  from processData_short_window_skips_deskew [OF repeated_stamp_state_ready repeated_stamp_state_front sweep_100ms_points
      repeated_stamp_state_window n'] repeated_window_facts
  have second: "processData_iteration repeated_stamp_state = Inl AssertionFailed"
    by blast
  from first second sparse_state_ready repeated_stamp_state_ready sweep_100ms_points
    sparse_window_ok(3) repeated_window_facts(3)
  show ?thesis by (simp add: b b')
qed

end
